theory Spec2Isabelle
  imports Main
begin

section \<open>Python values used by the orchestrator\<close>

text \<open>
  The exceptions of the source that are not caught where they arise. Each becomes a value:
  a function that can raise returns \<open>error + 'a\<close>, with \<open>Inl\<close> for the exception.
\<close>

datatype error = KeyError | IndexError | ImportError | AttributeError | OverflowError

text \<open>
  A target row is a Python \<open>dict\<close> from column names to strings (one line of the CSV table).
  \<open>row_item\<close> is \<open>row[k]\<close>, which raises \<open>KeyError\<close> on a missing key;
  \<open>row_get\<close> is \<open>row.get(k, d)\<close>, which does not.
\<close>

type_synonym row = "string \<rightharpoonup> string"

definition row_item :: "row \<Rightarrow> string \<Rightarrow> error + string" where
  "row_item r k = (case r k of None \<Rightarrow> Inl KeyError | Some v \<Rightarrow> Inr v)"

definition row_get :: "row \<Rightarrow> string \<Rightarrow> string \<Rightarrow> string" where
  "row_get r k d = (case r k of None \<Rightarrow> d | Some v \<Rightarrow> v)"

text \<open>\<open>p in s\<close> on strings: \<open>p\<close> occurs in \<open>s\<close> as a contiguous substring.\<close>

fun starts_with :: "string \<Rightarrow> string \<Rightarrow> bool" where
  "starts_with [] s = True"
| "starts_with (p # ps) [] = False"
| "starts_with (p # ps) (c # cs) = (p = c \<and> starts_with ps cs)"

fun py_in :: "string \<Rightarrow> string \<Rightarrow> bool" where
  "py_in p [] = (p = [])"
| "py_in p (c # cs) = (starts_with p (c # cs) \<or> py_in p cs)"

text \<open>\<open>s.split(sep)\<close> for a separator of one character: never an empty list.\<close>

fun split :: "char \<Rightarrow> string \<Rightarrow> string list" where
  "split sep [] = [[]]"
| "split sep (c # cs) =
     (if c = sep then [] # split sep cs
      else (case split sep cs of [] \<Rightarrow> [[c]] | p # ps \<Rightarrow> (c # p) # ps))"

text \<open>\<open>str(n)\<close> for a Python integer: decimal digits, with a minus sign when negative.\<close>

definition digit_char :: "nat \<Rightarrow> char" where
  "digit_char d = ''0123456789'' ! (d mod 10)"

function str_nat :: "nat \<Rightarrow> string" where
  "str_nat n = (if n < 10 then [digit_char n] else str_nat (n div 10) @ [digit_char (n mod 10)])"
  by pat_completeness auto
termination
  by (relation "measure (\<lambda>n. n)") auto

declare str_nat.simps [simp del]

definition str_int :: "int \<Rightarrow> string" where
  "str_int n = (if n < 0 then CHR ''-'' # str_nat (nat (- n)) else str_nat (nat n))"

text \<open>
  \<open>action.port\<close> is \<open>action.get("b_port")\<close>: an integer, or \<open>None\<close> when the
  registry record has no port. \<open>str(None)\<close> is the string \<open>None\<close>.
\<close>

definition str_port :: "int option \<Rightarrow> string" where
  "str_port p = (case p of None \<Rightarrow> ''None'' | Some n \<Rightarrow> str_int n)"

section \<open>Configuration, actions and the shared state\<close>

text \<open>The options of \<open>shared_data\<close> the orchestrator reads. Delays are in seconds.\<close>

record config =
  retry_success_actions :: bool
  success_retry_delay :: int
  failed_retry_delay :: int
  scan_interval :: int

text \<open>
  What the standard library gives the orchestrator. An instant is a \<open>datetime\<close>, counted
  in seconds from \<open>datetime.min\<close>, the start of 1 January 0001, so that every instant lies
  between \<open>datetime_min\<close> and \<open>datetime_max\<close>, the last second of 31 December 9999.
  \<open>clock k\<close> is the value of the \<open>k\<close>-th call of \<open>datetime.now()\<close> that the control
  flow depends on, \<open>strptime s\<close> is \<open>datetime.strptime(s, "%Y%m%d_%H%M%S")\<close> with
  \<open>None\<close> for \<open>ValueError\<close>, and \<open>strftime t\<close> is \<open>t.strftime("%Y%m%d_%H%M%S")\<close>.
\<close>

record env =
  clock :: "nat \<Rightarrow> int"
  strptime :: "string \<Rightarrow> int option"
  strftime :: "int \<Rightarrow> string"

definition datetime_min :: int where
  "datetime_min = 0"

definition datetime_max :: int where
  "datetime_max = 315537897599"

text \<open>
  \<open>timedelta(seconds = d)\<close> for an integer \<open>d\<close>: the duration of \<open>d\<close> seconds, and
  an \<open>OverflowError\<close> when its days are more than 999999999 in magnitude, that is, when
  \<open>d\<close> is below \<open>- 999999999 * 86400\<close> or not below \<open>1000000000 * 86400\<close>.
\<close>

definition timedelta_range :: "int \<Rightarrow> bool" where
  "timedelta_range secs = (- 86399999913600 \<le> secs \<and> secs \<le> 86399999999999)"

definition timedelta :: "int \<Rightarrow> error + int" where
  "timedelta secs = (if timedelta_range secs then Inr secs else Inl OverflowError)"

text \<open>
  \<open>t + d\<close> for a \<open>datetime\<close> and a \<open>timedelta\<close>: an \<open>OverflowError\<close> when the
  sum is not a \<open>datetime\<close>.
\<close>

definition datetime_range :: "int \<Rightarrow> bool" where
  "datetime_range t = (datetime_min \<le> t \<and> t \<le> datetime_max)"

definition datetime_add :: "int \<Rightarrow> int \<Rightarrow> error + int" where
  "datetime_add t d = (if datetime_range (t + d) then Inr (t + d) else Inl OverflowError)"

text \<open>
  \<open>last + timedelta(seconds = delay)\<close>, the right-hand side of the comparisons on lines
  143 and 155: the duration is built first, then added.
\<close>

definition retry_time :: "int \<Rightarrow> int \<Rightarrow> error + int" where
  "retry_time start delay =
     (case timedelta delay of
        Inl err \<Rightarrow> Inl err
      | Inr d \<Rightarrow> datetime_add start d)"

text \<open>
  What a plug-in's \<open>execute(ip, port, row, status_key)\<close> does: it returns a string, or it
  raises an exception derived from \<open>Exception\<close>. The first argument of \<open>execute\<close> below
  is the number of executions before this one, so that the same plug-in may answer
  differently on the same arguments at different times.
\<close>

datatype outcome = Returns string | Raises

record action =
  action_name :: string
  port :: "int option"
  b_parent_action :: "string option"
  execute :: "nat \<Rightarrow> string \<Rightarrow> string \<Rightarrow> row \<Rightarrow> string \<Rightarrow> outcome"

text \<open>
  The state the orchestrator works on: \<open>current_data\<close> is the table read at the start of
  a cycle and mutated in place, \<open>store\<close> is what \<open>write_data\<close> persisted last,
  \<open>executed\<close> lists the calls of \<open>action.execute\<close> so far (action name and ip, oldest
  first), \<open>ticks\<close> counts the clock readings taken, and the two labels are the status
  strings of \<open>shared_data\<close>.
\<close>

record world =
  current_data :: "row list"
  store :: "row list"
  executed :: "(string \<times> string) list"
  ticks :: nat
  bjornorch_status :: string
  bjornstatustext2 :: string
  slept :: "int list"
  failed_scans_count :: nat

definition now :: "env \<Rightarrow> world \<Rightarrow> int \<times> world" where
  "now e w = (clock e (ticks w), w\<lparr>ticks := Suc (ticks w)\<rparr>)"

definition write_data :: "world \<Rightarrow> world" where
  "write_data w = w\<lparr>store := current_data w\<rparr>"

definition read_data :: "world \<Rightarrow> world" where
  "read_data w = w\<lparr>current_data := store w\<rparr>"

definition set_cell :: "nat \<Rightarrow> string \<Rightarrow> string \<Rightarrow> world \<Rightarrow> world" where
  "set_cell i k v w = w\<lparr>current_data := (current_data w)[i := (current_data w ! i)(k \<mapsto> v)]\<rparr>"

section \<open>\<open>Orchestrator.execute_action\<close>\<close>

text \<open>
  \<open>cell.split('_')[1] + "_" + cell.split('_')[2]\<close>: an \<open>IndexError\<close> when the cell
  has fewer than three fields.
\<close>

definition stamp_of :: "string \<Rightarrow> error + string" where
  "stamp_of cell =
     (let parts = split CHR ''_'' cell
      in if length parts < 3 then Inl IndexError
         else Inr (parts ! 1 @ ''_'' @ parts ! 2))"

text \<open>
  Lines 137 to 149. \<open>Inr (True, w)\<close> means: go on to the next rule. The handler of
  \<open>ValueError\<close> only logs, so a timestamp that does not parse lets the evaluation go on;
  it does not catch the \<open>OverflowError\<close> of the sum on line 143, whose left-hand side,
  the clock, is read first. The second reading of the clock, on line 144, only feeds the
  log message, and the sum it repeats has been computed once by then.
\<close>

definition success_check :: "config \<Rightarrow> env \<Rightarrow> string \<Rightarrow> world \<Rightarrow> error + bool \<times> world" where
  "success_check cfg e cell w =
     (if py_in ''success'' cell then
        (if \<not> retry_success_actions cfg then Inr (False, w)
         else (case stamp_of cell of
                 Inl err \<Rightarrow> Inl err
               | Inr st \<Rightarrow>
                   (case strptime e st of
                      None \<Rightarrow> Inr (True, w)
                    | Some last_success_time \<Rightarrow>
                        (let (t, w1) = now e w
                         in case retry_time last_success_time (success_retry_delay cfg) of
                              Inl err \<Rightarrow> Inl err
                            | Inr limit \<Rightarrow>
                                if t < limit then Inr (False, w1) else Inr (True, w1)))))
      else Inr (True, w))"

text \<open>Lines 151 to 161, with the same conventions.\<close>

definition failed_check :: "config \<Rightarrow> env \<Rightarrow> string \<Rightarrow> world \<Rightarrow> error + bool \<times> world" where
  "failed_check cfg e last_failed_time_str w =
     (if py_in ''failed'' last_failed_time_str then
        (case stamp_of last_failed_time_str of
           Inl err \<Rightarrow> Inl err
         | Inr st \<Rightarrow>
             (case strptime e st of
                None \<Rightarrow> Inr (True, w)
              | Some last_failed_time \<Rightarrow>
                  (let (t, w1) = now e w
                   in case retry_time last_failed_time (failed_retry_delay cfg) of
                        Inl err \<Rightarrow> Inl err
                      | Inr limit \<Rightarrow>
                          if t < limit then Inr (False, w1) else Inr (True, w1))))
      else Inr (True, w))"

text \<open>
  Lines 132 to 135: the test \<open>if action.b_parent_action:\<close> is Python truthiness, so a
  parent that is \<open>None\<close> or the empty string asks for nothing.
\<close>

definition parent_ok :: "action \<Rightarrow> row \<Rightarrow> bool" where
  "parent_ok a r =
     (case b_parent_action a of
        None \<Rightarrow> True
      | Some p \<Rightarrow> p = [] \<or> py_in ''success'' (row_get r p ''''))"

text \<open>
  Lines 129 to 161, the eligibility rules in the order of the source. The row is the
  \<open>i\<close>-th of \<open>current_data\<close>. \<open>Inr (True, w')\<close>: the action is to be executed.
  Every action that \<open>load_action\<close> built has the attribute \<open>port\<close>, so the
  \<open>hasattr\<close> of line 129 holds.
\<close>

definition gate ::
  "config \<Rightarrow> env \<Rightarrow> action \<Rightarrow> string list \<Rightarrow> nat \<Rightarrow> string \<Rightarrow> world \<Rightarrow> error + bool \<times> world" where
  "gate cfg e a ports i action_key w =
     (let r = current_data w ! i
      in if str_port (port a) \<notin> set ports then Inr (False, w)
         else if \<not> parent_ok a r then Inr (False, w)
         else (case row_item r action_key of
                 Inl err \<Rightarrow> Inl err
               | Inr cell \<Rightarrow>
                   (case success_check cfg e cell w of
                      Inl err \<Rightarrow> Inl err
                    | Inr (False, w1) \<Rightarrow> Inr (False, w1)
                    | Inr (True, w1) \<Rightarrow> failed_check cfg e cell w1)))"

text \<open>
  Lines 163 to 179: the call of the plug-in, the new status cell, the write of the whole
  table, and the boolean returned. An exception of the plug-in is caught here.
\<close>

definition dispatch ::
  "env \<Rightarrow> action \<Rightarrow> string \<Rightarrow> nat \<Rightarrow> string \<Rightarrow> world \<Rightarrow> bool \<times> world" where
  "dispatch e a ip i action_key w =
     (let w1 = w\<lparr>bjornstatustext2 := ip, executed := executed w @ [(action_name a, ip)]\<rparr>;
          result = execute a (length (executed w)) ip (str_port (port a))
                     (current_data w ! i) action_key;
          (t, w2) = now e w1;
          timestamp = strftime e t
      in (case result of
            Returns r \<Rightarrow>
              (if r = ''success''
               then (True, write_data (set_cell i action_key (''success_'' @ timestamp) w2))
               else (False, write_data (set_cell i action_key (''failed_'' @ timestamp) w2)))
          | Raises \<Rightarrow>
              (False, write_data (set_cell i action_key (''failed_'' @ timestamp) w2))))"

definition execute_action ::
  "config \<Rightarrow> env \<Rightarrow> action \<Rightarrow> string \<Rightarrow> string list \<Rightarrow> nat \<Rightarrow> string \<Rightarrow> world
     \<Rightarrow> error + bool \<times> world" where
  "execute_action cfg e a ip ports i action_key w =
     (case gate cfg e a ports i action_key w of
        Inl err \<Rightarrow> Inl err
      | Inr (False, w1) \<Rightarrow> Inr (False, w1)
      | Inr (True, w1) \<Rightarrow> Inr (dispatch e a ip i action_key w1))"


text \<open>
  Whether a call of \<open>execute_action\<close> in the state \<open>w\<close> reached the plug-in:
  the list of executions grew. A call that raises has not reached it, since every raise
  of \<open>execute_action\<close> is in the rules before line 163.
\<close>

definition runs_plugin :: "world \<Rightarrow> error + bool \<times> world \<Rightarrow> bool" where
  "runs_plugin w res =
     (case res of Inl err \<Rightarrow> False | Inr (b, w') \<Rightarrow> length (executed w) < length (executed w'))"

text \<open>
  The stored form of a status cell is \<open>outcome_YYYYMMDD_HHMMSS\<close>: eight digits for
  the date and six for the time of day.
\<close>

definition timestamp_shaped :: "string \<Rightarrow> string \<Rightarrow> bool" where
  "timestamp_shaped d t =
     (length d = 8 \<and> length t = 6 \<and> (\<forall>c \<in> set (d @ t). c \<in> set ''0123456789''))"

section \<open>\<open>Orchestrator.process_alive_ips\<close>\<close>

text \<open>
  The loops over \<open>current_data\<close> run over the indices of the table, since the rows
  are mutated in place while the list keeps its length. The semaphore is acquired and
  released around each call on the one control thread and changes nothing.

  Lines 104 to 110: after a top-level action succeeded on a row, its children in registry
  order on the same row, up to the first child that succeeds.
\<close>

fun children_pass ::
  "config \<Rightarrow> env \<Rightarrow> action list \<Rightarrow> string \<Rightarrow> string \<Rightarrow> string list \<Rightarrow> nat \<Rightarrow> world
     \<Rightarrow> error + world" where
  "children_pass cfg e [] action_key ip ports i w = Inr w"
| "children_pass cfg e (child_action # rest) action_key ip ports i w =
     (if b_parent_action child_action = Some action_key then
        (case execute_action cfg e child_action ip ports i (action_name child_action) w of
           Inl err \<Rightarrow> Inl err
         | Inr (True, w1) \<Rightarrow> Inr (w1\<lparr>bjornorch_status := action_name child_action\<rparr>)
         | Inr (False, w1) \<Rightarrow> children_pass cfg e rest action_key ip ports i w1)
      else children_pass cfg e rest action_key ip ports i w)"

text \<open>
  Lines 91 to 111: the rows for one action of the first pair of loops. A row whose
  \<open>Alive\<close> is not \<open>1\<close> is passed over; an action with a parent reads the columns
  of each live row and does nothing; the loop ends at the first row on which the action
  succeeds.
\<close>

fun top_rows ::
  "config \<Rightarrow> env \<Rightarrow> action list \<Rightarrow> action \<Rightarrow> nat list \<Rightarrow> bool \<times> world
     \<Rightarrow> error + bool \<times> world" where
  "top_rows cfg e acts a [] (any_action_executed, w) = Inr (any_action_executed, w)"
| "top_rows cfg e acts a (i # rest) (any_action_executed, w) =
     (let r = current_data w ! i
      in case row_item r ''Alive'' of
           Inl err \<Rightarrow> Inl err
         | Inr alive \<Rightarrow>
             if alive \<noteq> ''1'' then top_rows cfg e acts a rest (any_action_executed, w)
             else (case row_item r ''IPs'' of
                     Inl err \<Rightarrow> Inl err
                   | Inr ip \<Rightarrow>
                       (case row_item r ''Ports'' of
                          Inl err \<Rightarrow> Inl err
                        | Inr ps \<Rightarrow>
                            (let ports = split CHR '';'' ps; action_key = action_name a
                             in if b_parent_action a = None then
                                  (case execute_action cfg e a ip ports i action_key w of
                                     Inl err \<Rightarrow> Inl err
                                   | Inr (True, w1) \<Rightarrow>
                                       (case children_pass cfg e acts action_key ip ports i
                                               (w1\<lparr>bjornorch_status := action_key\<rparr>) of
                                          Inl err \<Rightarrow> Inl err
                                        | Inr w2 \<Rightarrow> Inr (True, w2))
                                   | Inr (False, w1) \<Rightarrow>
                                       top_rows cfg e acts a rest (any_action_executed, w1))
                                else top_rows cfg e acts a rest (any_action_executed, w)))))"

fun top_level_pass ::
  "config \<Rightarrow> env \<Rightarrow> action list \<Rightarrow> action list \<Rightarrow> bool \<times> world \<Rightarrow> error + bool \<times> world" where
  "top_level_pass cfg e acts [] s = Inr s"
| "top_level_pass cfg e acts (a # rest) (any_action_executed, w) =
     (case top_rows cfg e acts a [0 ..< length (current_data w)] (any_action_executed, w) of
        Inl err \<Rightarrow> Inl err
      | Inr s \<Rightarrow> top_level_pass cfg e acts rest s)"

text \<open>
  Lines 113 to 123. The test on line 114 is truthiness, and the loop on line 116 reads the
  columns \<open>IPs\<close> and \<open>Ports\<close> of every row: it has no test of \<open>Alive\<close>.
\<close>

definition truthy :: "string option \<Rightarrow> bool" where
  "truthy p = (case p of None \<Rightarrow> False | Some s \<Rightarrow> s \<noteq> [])"

fun sweep_rows ::
  "config \<Rightarrow> env \<Rightarrow> action \<Rightarrow> nat list \<Rightarrow> bool \<times> world \<Rightarrow> error + bool \<times> world" where
  "sweep_rows cfg e child_action [] (any_action_executed, w) = Inr (any_action_executed, w)"
| "sweep_rows cfg e child_action (i # rest) (any_action_executed, w) =
     (let r = current_data w ! i
      in case row_item r ''IPs'' of
           Inl err \<Rightarrow> Inl err
         | Inr ip \<Rightarrow>
             (case row_item r ''Ports'' of
                Inl err \<Rightarrow> Inl err
              | Inr ps \<Rightarrow>
                  (case execute_action cfg e child_action ip (split CHR '';'' ps) i
                          (action_name child_action) w of
                     Inl err \<Rightarrow> Inl err
                   | Inr (True, w1) \<Rightarrow>
                       Inr (True, w1\<lparr>bjornorch_status := action_name child_action\<rparr>)
                   | Inr (False, w1) \<Rightarrow>
                       sweep_rows cfg e child_action rest (any_action_executed, w1))))"

fun child_sweep ::
  "config \<Rightarrow> env \<Rightarrow> action list \<Rightarrow> bool \<times> world \<Rightarrow> error + bool \<times> world" where
  "child_sweep cfg e [] s = Inr s"
| "child_sweep cfg e (child_action # rest) (any_action_executed, w) =
     (if truthy (b_parent_action child_action) then
        (case sweep_rows cfg e child_action [0 ..< length (current_data w)]
                (any_action_executed, w) of
           Inl err \<Rightarrow> Inl err
         | Inr s \<Rightarrow> child_sweep cfg e rest s)
      else child_sweep cfg e rest (any_action_executed, w))"

definition process_alive_ips ::
  "config \<Rightarrow> env \<Rightarrow> action list \<Rightarrow> world \<Rightarrow> error + bool \<times> world" where
  "process_alive_ips cfg e acts w =
     (case top_level_pass cfg e acts acts (False, w) of
        Inl err \<Rightarrow> Inl err
      | Inr s \<Rightarrow> child_sweep cfg e acts s)"

section \<open>\<open>Orchestrator.load_actions\<close>\<close>

text \<open>
  A record of the actions file, as \<open>json.load\<close> gives it: a field is \<open>None\<close> when
  the key is missing (for \<open>b_parent\<close> also when it is \<open>null\<close>).
\<close>

record action_config =
  b_module :: "string option"
  b_class :: "string option"
  b_port :: "int option"
  b_parent :: "string option"

text \<open>
  The package \<open>actions\<close>: the modules that \<open>importlib.import_module\<close> finds, each
  with the classes it defines (a class is given by the \<open>execute\<close> of its instances) and
  with its attribute \<open>b_class\<close>, which \<open>load_scanner\<close> reads.
\<close>

type_synonym plugin = "nat \<Rightarrow> string \<Rightarrow> string \<Rightarrow> row \<Rightarrow> string \<Rightarrow> outcome"

record module =
  b_class_attr :: "string option"
  classes :: "string \<rightharpoonup> plugin"

type_synonym packages = "string \<rightharpoonup> module"

record orchestrator =
  actions :: "action list"
  standalone_actions :: "action list"
  network_scanner :: "string option"
  nmap_vuln_scanner :: bool

definition new_orchestrator :: orchestrator where
  "new_orchestrator =
     \<lparr>actions = [], standalone_actions = [], network_scanner = None, nmap_vuln_scanner = False\<rparr>"

text \<open>
  Lines 59 to 63. Nothing here is inside a \<open>try\<close>.
\<close>

definition load_scanner :: "packages \<Rightarrow> string \<Rightarrow> orchestrator \<Rightarrow> error + orchestrator" where
  "load_scanner pk module_name orch =
     (case pk module_name of
        None \<Rightarrow> Inl ImportError
      | Some m \<Rightarrow>
          (case b_class_attr m of
             None \<Rightarrow> Inl AttributeError
           | Some cls \<Rightarrow>
               (case classes m cls of
                  None \<Rightarrow> Inl AttributeError
                | Some p \<Rightarrow> Inr (orch\<lparr>network_scanner := Some cls\<rparr>))))"

definition load_nmap_vuln_scanner :: "string \<Rightarrow> orchestrator \<Rightarrow> error + orchestrator" where
  "load_nmap_vuln_scanner module_name orch = Inr (orch\<lparr>nmap_vuln_scanner := True\<rparr>)"

text \<open>
  Lines 69 to 83. The import on line 71 is before the \<open>try\<close>; the handler catches
  \<open>AttributeError\<close> only, which is what \<open>getattr\<close> raises for a class the module
  does not have, and then the record is passed over.
\<close>

definition load_action ::
  "packages \<Rightarrow> string \<Rightarrow> action_config \<Rightarrow> orchestrator \<Rightarrow> error + orchestrator" where
  "load_action pk module_name rec orch =
     (case pk module_name of
        None \<Rightarrow> Inl ImportError
      | Some m \<Rightarrow>
          (case b_class rec of
             None \<Rightarrow> Inl KeyError
           | Some cls \<Rightarrow>
               (case classes m cls of
                  None \<Rightarrow> Inr orch
                | Some p \<Rightarrow>
                    (let action_instance =
                           \<lparr>action_name = cls, port = b_port rec,
                            b_parent_action = b_parent rec, execute = p\<rparr>
                     in if port action_instance = Some 0
                        then Inr (orch\<lparr>standalone_actions :=
                                         standalone_actions orch @ [action_instance]\<rparr>)
                        else Inr (orch\<lparr>actions := actions orch @ [action_instance]\<rparr>)))))"

fun load_actions :: "packages \<Rightarrow> action_config list \<Rightarrow> orchestrator \<Rightarrow> error + orchestrator" where
  "load_actions pk [] orch = Inr orch"
| "load_actions pk (rec # rest) orch =
     (case b_module rec of
        None \<Rightarrow> Inl KeyError
      | Some module_name \<Rightarrow>
          (case (if module_name = ''scanning'' then load_scanner pk module_name orch
                 else if module_name = ''nmap_vuln_scanner''
                      then load_nmap_vuln_scanner module_name orch
                 else load_action pk module_name rec orch) of
             Inl err \<Rightarrow> Inl err
           | Inr orch1 \<Rightarrow> load_actions pk rest orch1))"

section \<open>\<open>wifi_monitor.switch_network_if_idle\<close> and \<open>Orchestrator.run\<close>\<close>

text \<open>
  The credentials file as a list of dictionaries, and the two subprocess wrappers as
  functions of the number of the polling round.
\<close>

record wifi =
  credentials :: "(string \<rightharpoonup> string) list"
  scan_available_networks :: "nat \<Rightarrow> string list"
  connect_to_network :: "nat \<Rightarrow> string \<Rightarrow> string \<Rightarrow> bool"

text \<open>
  Lines 90 to 96: the loop over the known networks, left by \<open>break\<close> after the first
  connection. The result tells whether a connection was made.
\<close>

fun try_networks ::
  "(string \<Rightarrow> string \<Rightarrow> bool) \<Rightarrow> string list \<Rightarrow> (string \<rightharpoonup> string) list \<Rightarrow> error + bool" where
  "try_networks conn available_ssids [] = Inr False"
| "try_networks conn available_ssids (network # rest) =
     (case network ''SSID'' of
        None \<Rightarrow> Inl KeyError
      | Some ssid \<Rightarrow>
          if ssid \<in> set available_ssids \<or>
             (case network ''BSSID'' of None \<Rightarrow> False | Some b \<Rightarrow> b \<in> set available_ssids)
          then (case network ''Password'' of
                  None \<Rightarrow> Inl KeyError
                | Some pw \<Rightarrow>
                    if conn ssid pw then Inr True
                    else try_networks conn available_ssids rest)
          else try_networks conn available_ssids rest)"

text \<open>
  Lines 83 to 99: \<open>while True\<close>. The value \<open>None\<close> means that the call does not
  return.
\<close>

partial_function (option) poll :: "wifi \<Rightarrow> string \<Rightarrow> nat \<Rightarrow> (error + unit) option" where
  "poll wm status n =
     (if status = ''idle_action'' then
        (case try_networks (connect_to_network wm n) (scan_available_networks wm n)
                (credentials wm) of
           Inl err \<Rightarrow> Some (Inl err)
         | Inr connected \<Rightarrow> poll wm status (Suc n))
      else poll wm status (Suc n))"

definition switch_network_if_idle :: "wifi \<Rightarrow> world \<Rightarrow> (error + unit) option" where
  "switch_network_if_idle wm w = poll wm (bjornorch_status w) 0"

text \<open>
  The collaborators of \<open>run\<close>: what the \<open>k\<close>-th network scan makes of the stored
  table, and the shutdown flag as read at the start of the \<open>k\<close>-th iteration.
\<close>

record collaborators =
  scan :: "nat \<Rightarrow> row list \<Rightarrow> row list"
  orchestrator_should_exit :: "nat \<Rightarrow> bool"

definition network_scan :: "collaborators \<Rightarrow> nat \<Rightarrow> world \<Rightarrow> world" where
  "network_scan co k w = w\<lparr>store := scan co k (store w)\<rparr>"

definition sleep :: "int \<Rightarrow> world \<Rightarrow> world" where
  "sleep secs w = w\<lparr>slept := slept w @ [secs]\<rparr>"

text \<open>
  Lines 189 to 215, the body of the loop of \<open>run\<close>.
\<close>

definition run_iteration ::
  "config \<Rightarrow> env \<Rightarrow> collaborators \<Rightarrow> wifi \<Rightarrow> orchestrator \<Rightarrow> nat \<Rightarrow> world
     \<Rightarrow> (error + world) option" where
  "run_iteration cfg e co wm orch k w =
     (case process_alive_ips cfg e (actions orch) (read_data w) of
        Inl err \<Rightarrow> Some (Inl err)
      | Inr (True, w1) \<Rightarrow> Some (Inr (w1\<lparr>failed_scans_count := 0\<rparr>))
      | Inr (False, w1) \<Rightarrow>
          (let w2 = w1\<lparr>bjornorch_status := ''IDLE'', bjornstatustext2 := ''''\<rparr>
           in case network_scanner orch of
                None \<Rightarrow> Some (Inr (sleep (scan_interval cfg) w2))
              | Some sc \<Rightarrow>
                  (let w3 = read_data
                              (network_scan co k (w2\<lparr>bjornorch_status := ''NetworkScanner''\<rparr>))
                   in case process_alive_ips cfg e (actions orch) w3 of
                        Inl err \<Rightarrow> Some (Inl err)
                      | Inr (True, w4) \<Rightarrow> Some (Inr (sleep (scan_interval cfg) w4))
                      | Inr (False, w4) \<Rightarrow>
                          (let w5 = w4\<lparr>bjornorch_status := ''idle_action''\<rparr>
                           in case switch_network_if_idle wm w5 of
                                None \<Rightarrow> None
                              | Some (Inl err) \<Rightarrow> Some (Inl err)
                              | Some (Inr u) \<Rightarrow> Some (Inr (sleep (scan_interval cfg) w5))))))"

partial_function (option) run_loop ::
  "config \<Rightarrow> env \<Rightarrow> collaborators \<Rightarrow> wifi \<Rightarrow> orchestrator \<Rightarrow> nat \<Rightarrow> world
     \<Rightarrow> (error + world) option" where
  "run_loop cfg e co wm orch k w =
     (if orchestrator_should_exit co k then Some (Inr w)
      else (case run_iteration cfg e co wm orch k w of
              None \<Rightarrow> None
            | Some (Inl err) \<Rightarrow> Some (Inl err)
            | Some (Inr w1) \<Rightarrow> run_loop cfg e co wm orch (Suc k) w1))"

text \<open>
  Lines 183 to 188: the first scan, on a scanner that must have been loaded.
\<close>

definition run ::
  "config \<Rightarrow> env \<Rightarrow> collaborators \<Rightarrow> wifi \<Rightarrow> orchestrator \<Rightarrow> world \<Rightarrow> (error + world) option" where
  "run cfg e co wm orch w =
     (case network_scanner orch of
        None \<Rightarrow> Some (Inl AttributeError)
      | Some sc \<Rightarrow>
          run_loop cfg e co wm orch 1
            ((network_scan co 0
                (w\<lparr>bjornorch_status := ''NetworkScanner'', bjornstatustext2 := ''First scan...''\<rparr>))
             \<lparr>bjornstatustext2 := ''''\<rparr>))"

section \<open>Example data\<close>

text \<open>
  The examples are set on 1 January 2024, whose midnight is 738885 days after
  \<open>datetime.min\<close>, and stay within that day. \<open>example_strptime\<close> lists the values of
  \<open>datetime.strptime\<close> at the well-formed stamps the examples use; every other string
  of the examples is one that \<open>strptime\<close> rejects.
\<close>

definition midnight :: int where
  "midnight = 738885 * 86400"

definition two_digits :: "nat \<Rightarrow> string" where
  "two_digits n = [digit_char (n div 10), digit_char n]"

definition example_strftime :: "int \<Rightarrow> string" where
  "example_strftime t =
     ''20240101_'' @ two_digits (nat (t - midnight) div 3600)
       @ two_digits (nat (t - midnight) div 60 mod 60)
       @ two_digits (nat (t - midnight) mod 60)"

definition example_strptime :: "string \<Rightarrow> int option" where
  "example_strptime s =
     (if s = ''20240101_000000'' then Some midnight
      else if s = ''20240101_003000'' then Some (midnight + 1800)
      else if s = ''99991231_235959'' then Some datetime_max
      else None)"

definition example_env :: env where
  "example_env =
     \<lparr>clock = (\<lambda>k. midnight + 1800 + int k), strptime = example_strptime,
      strftime = example_strftime\<rparr>"

definition example_cfg :: config where
  "example_cfg =
     \<lparr>retry_success_actions = False, success_retry_delay = 900,
      failed_retry_delay = 3600, scan_interval = 180\<rparr>"

definition answering :: "string \<Rightarrow> plugin" where
  "answering s = (\<lambda>n ip p r k. Returns s)"

definition crashing :: plugin where
  "crashing = (\<lambda>n ip p r k. Raises)"

definition ActionX :: action where
  "ActionX = \<lparr>action_name = ''ActionX'', port = Some 80, b_parent_action = None,
              execute = answering ''success''\<rparr>"

definition ActionY :: action where
  "ActionY = \<lparr>action_name = ''ActionY'', port = Some 0, b_parent_action = Some ''ActionX'',
              execute = answering ''success''\<rparr>"

definition ActionZ :: action where
  "ActionZ = \<lparr>action_name = ''ActionZ'', port = Some 80, b_parent_action = Some ''ActionX'',
              execute = answering ''success''\<rparr>"

definition target :: "string \<Rightarrow> string \<Rightarrow> row" where
  "target alive ports = [''Alive'' \<mapsto> alive, ''IPs'' \<mapsto> ''10.0.0.1'', ''Ports'' \<mapsto> ports]"

definition world_of :: "row list \<Rightarrow> world" where
  "world_of rows =
     \<lparr>current_data = rows, store = rows, executed = [], ticks = 0,
      bjornorch_status = '''', bjornstatustext2 = '''', slept = [], failed_scans_count = 0\<rparr>"

definition T1 :: row where
  "T1 = (target ''1'' ''80'')(''ActionX'' \<mapsto> '''', ''ActionY'' \<mapsto> '''')"

text \<open>
  Rows for the target of the examples: with \<open>ActionX\<close> already done, with a failure of
  \<open>ActionX\<close> at midnight, with a status cell whose timestamp does not parse, with no
  status cell at all, with an empty cell for \<open>ActionC\<close>, and a target that is not alive whose parent action is done.
\<close>

definition T1_done :: row where
  "T1_done = (target ''1'' ''80'')(''ActionX'' \<mapsto> ''success_20240101_000000'', ''ActionZ'' \<mapsto> '''')"

definition T1_failed :: row where
  "T1_failed = (target ''1'' ''80'')(''ActionX'' \<mapsto> ''failed_20240101_000000'')"

definition T1_corrupt :: row where
  "T1_corrupt = (target ''1'' ''80'')(''ActionX'' \<mapsto> ''failed_garbage_x'')"

definition T1_absent :: row where
  "T1_absent = target ''1'' ''80''"

definition T0_dead :: row where
  "T0_dead = (target ''0'' ''80'')(''ActionX'' \<mapsto> ''success_20240101_000000'', ''ActionZ'' \<mapsto> '''')"

definition ActionC :: action where
  "ActionC = \<lparr>action_name = ''ActionC'', port = Some 80, b_parent_action = None,
              execute = crashing\<rparr>"

definition T1_fresh :: row where
  "T1_fresh = (target ''1'' ''80'')(''ActionC'' \<mapsto> '''')"

text \<open>The registry of scenario A, the package it is loaded from, and a record whose module
  does not exist.\<close>

definition record_x :: action_config where
  "record_x = \<lparr>b_module = Some ''action_x'', b_class = Some ''ActionX'',
               b_port = Some 80, b_parent = None\<rparr>"

definition record_y :: action_config where
  "record_y = \<lparr>b_module = Some ''action_y'', b_class = Some ''ActionY'',
               b_port = Some 0, b_parent = Some ''ActionX''\<rparr>"

definition record_ghost :: action_config where
  "record_ghost = \<lparr>b_module = Some ''ghost'', b_class = Some ''Ghost'',
                   b_port = Some 22, b_parent = None\<rparr>"

definition record_typo :: action_config where
  "record_typo = \<lparr>b_module = Some ''action_x'', b_class = Some ''ActionTypo'',
                  b_port = Some 22, b_parent = None\<rparr>"

definition example_packages :: packages where
  "example_packages =
     [''action_x'' \<mapsto> \<lparr>b_class_attr = Some ''ActionX'',
                       classes = [''ActionX'' \<mapsto> answering ''success'']\<rparr>,
      ''action_y'' \<mapsto> \<lparr>b_class_attr = Some ''ActionY'',
                       classes = [''ActionY'' \<mapsto> answering ''success'']\<rparr>]"

text \<open>An orchestrator with a scanner, a scan that finds nothing new, an empty credentials
  file, and no shutdown request.\<close>

definition example_orchestrator :: orchestrator where
  "example_orchestrator =
     \<lparr>actions = [ActionX], standalone_actions = [ActionY],
      network_scanner = Some ''NetworkScanner'', nmap_vuln_scanner = False\<rparr>"

definition example_collaborators :: collaborators where
  "example_collaborators = \<lparr>scan = (\<lambda>k rows. rows), orchestrator_should_exit = (\<lambda>k. False)\<rparr>"

definition example_wifi :: wifi where
  "example_wifi =
     \<lparr>credentials = [], scan_available_networks = (\<lambda>n. []),
      connect_to_network = (\<lambda>n ssid pw. False)\<rparr>"

text \<open>A row whose \<open>Alive\<close> column is there and is not \<open>1\<close>.\<close>

definition not_alive :: "row \<Rightarrow> bool" where
  "not_alive r = (case r ''Alive'' of None \<Rightarrow> False | Some v \<Rightarrow> v \<noteq> ''1'')"

text \<open>The target of scenario C: alive, with port 81 open only.\<close>

definition T1_port81 :: row where
  "T1_port81 = (target ''1'' ''81'')(''ActionX'' \<mapsto> '''')"

text \<open>
  Between two states of a cycle: the table has kept its length, and every cell that held
  a success holds the same string.
\<close>

definition keeps_successes :: "world \<Rightarrow> world \<Rightarrow> bool" where
  "keeps_successes w w' =
     (length (current_data w') = length (current_data w) \<and>
      (\<forall>i < length (current_data w). \<forall>k cell.
         (current_data w ! i) k = Some cell \<and> py_in ''success'' cell \<longrightarrow>
           (current_data w' ! i) k = Some cell))"

text \<open>The target with a failure of \<open>ActionX\<close> in the last second of the year 9999.\<close>

definition T1_last :: row where
  "T1_last = (target ''1'' ''80'')(''ActionX'' \<mapsto> ''failed_99991231_235959'')"
section \<open>Facts about the eligibility rules\<close>

text \<open>The rules read the clock at most twice and change nothing else.\<close>

lemma success_check_world:
  "success_check cfg e cell w = Inr (b, w1) \<Longrightarrow> w1 = w \<or> w1 = w\<lparr>ticks := Suc (ticks w)\<rparr>"
  by (auto simp: success_check_def now_def split: if_splits sum.splits option.splits)

lemma failed_check_world:
  "failed_check cfg e cell w = Inr (b, w1) \<Longrightarrow> w1 = w \<or> w1 = w\<lparr>ticks := Suc (ticks w)\<rparr>"
  by (auto simp: failed_check_def now_def split: if_splits sum.splits option.splits)

lemma gate_cases:
  assumes "gate cfg e a ports i key w = Inr (b, w1)"
  shows "(\<not> b \<and> w1 = w \<and> (str_port (port a) \<notin> set ports \<or> \<not> parent_ok a (current_data w ! i)))
       \<or> (str_port (port a) \<in> set ports \<and> parent_ok a (current_data w ! i) \<and>
           (\<exists>cell. (current_data w ! i) key = Some cell \<and>
              ((\<not> b \<and> success_check cfg e cell w = Inr (False, w1))
             \<or> (\<exists>w0. success_check cfg e cell w = Inr (True, w0) \<and>
                       failed_check cfg e cell w0 = Inr (b, w1)))))"
  using assms
  by (auto simp: gate_def Let_def row_item_def
           split: if_splits sum.splits prod.splits bool.splits option.splits)

lemma gate_world:
  assumes "gate cfg e a ports i key w = Inr (b, w1)"
  shows "\<exists>n. w1 = w\<lparr>ticks := n\<rparr>"
proof -
  have same: "\<And>v. v = v\<lparr>ticks := ticks v\<rparr>" by simp
  from gate_cases [OF assms] consider
      "w1 = w"
    | cell where "success_check cfg e cell w = Inr (False, w1)"
    | cell w0 where "success_check cfg e cell w = Inr (True, w0)"
        "failed_check cfg e cell w0 = Inr (b, w1)"
    by blast
  then show ?thesis
  proof cases
    case 1
    then show ?thesis using same by blast
  next
    case 2
    from success_check_world [OF 2] show ?thesis using same by blast
  next
    case 3
    from success_check_world [OF 3(1)] failed_check_world [OF 3(2)]
    have "w1 = w \<or> w1 = w\<lparr>ticks := Suc (ticks w)\<rparr> \<or> w1 = w\<lparr>ticks := Suc (Suc (ticks w))\<rparr>"
      by auto
    then show ?thesis using same by blast
  qed
qed

lemma gate_executed:
  "gate cfg e a ports i key w = Inr (b, w1) \<Longrightarrow> executed w1 = executed w"
  using gate_world by fastforce

lemma gate_current_data:
  "gate cfg e a ports i key w = Inr (b, w1) \<Longrightarrow> current_data w1 = current_data w"
  using gate_world by fastforce

lemma dispatch_executed:
  "dispatch e a ip i key w = (b, w') \<Longrightarrow> executed w' = executed w @ [(action_name a, ip)]"
  by (auto simp: dispatch_def now_def write_data_def set_cell_def Let_def
           split: outcome.splits if_splits)

lemma runs_plugin_iff_gate:
  "runs_plugin w (execute_action cfg e a ip ports i key w) \<longleftrightarrow>
     (\<exists>w1. gate cfg e a ports i key w = Inr (True, w1))"
proof (cases "gate cfg e a ports i key w")
  case (Inl err)
  then show ?thesis by (simp add: runs_plugin_def execute_action_def)
next
  case (Inr p)
  obtain b w1 where p: "p = (b, w1)" by (cases p)
  show ?thesis
  proof (cases b)
    case True
    obtain r w' where d: "dispatch e a ip i key w1 = (r, w')" by (cases "dispatch e a ip i key w1")
    from Inr p True have g: "gate cfg e a ports i key w = Inr (True, w1)" by simp
    from dispatch_executed [OF d] gate_executed [OF g] g d
    show ?thesis by (simp add: runs_plugin_def execute_action_def)
  next
    case False
    with Inr p have g: "gate cfg e a ports i key w = Inr (False, w1)" by simp
    from gate_executed [OF g] g show ?thesis
      by (simp add: runs_plugin_def execute_action_def)
  qed
qed

lemma execute_action_returns:
  assumes "gate cfg e a ports i key w = Inr (g, w1)"
  shows "\<exists>b w'. execute_action cfg e a ip ports i key w = Inr (b, w')"
proof (cases g)
  case True
  obtain r w' where "dispatch e a ip i key w1 = (r, w')"
    by (cases "dispatch e a ip i key w1")
  with assms True show ?thesis by (simp add: execute_action_def)
next
  case False
  with assms show ?thesis by (auto simp: execute_action_def)
qed

lemma starts_with_set: "starts_with p s \<Longrightarrow> set p \<subseteq> set s"
  by (induction p s rule: starts_with.induct) auto

lemma py_in_set: "py_in p s \<Longrightarrow> set p \<subseteq> set s"
proof (induction s)
  case Nil
  then show ?case by simp
next
  case (Cons c cs)
  then show ?case using starts_with_set [of p "c # cs"] by auto
qed

lemma starts_with_append: "starts_with p (p @ s)"
  by (induction p) auto

lemma py_in_prefix: "py_in p (p @ s)"
  by (cases "p @ s") (auto simp: starts_with_append dest: sym)

lemma split_no_sep: "sep \<notin> set s \<Longrightarrow> split sep s = [s]"
  by (induction s) auto

lemma split_append: "sep \<notin> set a \<Longrightarrow> split sep (a @ sep # b) = a # split sep b"
  by (induction a) auto

lemma stamp_of_tagged:
  assumes "CHR ''_'' \<notin> set tag" "CHR ''_'' \<notin> set d" "CHR ''_'' \<notin> set t"
  shows "stamp_of (tag @ ''_'' @ d @ ''_'' @ t) = Inr (d @ ''_'' @ t)"
  using assms by (simp add: stamp_of_def split_append split_no_sep)

lemma shaped_chars:
  assumes "timestamp_shaped d t" and "c \<in> set d \<or> c \<in> set t"
  shows "c \<in> set ''0123456789''"
  using assms unfolding timestamp_shaped_def by (metis Un_iff set_append)

lemma shaped_no_underscore:
  assumes "timestamp_shaped d t"
  shows "CHR ''_'' \<notin> set d" and "CHR ''_'' \<notin> set t"
  using shaped_chars [OF assms, of "CHR ''_''"] by auto

lemma failed_cell_not_success:
  assumes "timestamp_shaped d t"
  shows "\<not> py_in ''success'' (''failed_'' @ d @ ''_'' @ t)"
proof
  assume "py_in ''success'' (''failed_'' @ d @ ''_'' @ t)"
  from py_in_set [OF this] have "CHR ''s'' \<in> set (''failed_'' @ d @ ''_'' @ t)" by auto
  then have "CHR ''s'' \<in> set d \<or> CHR ''s'' \<in> set t" by simp
  from shaped_chars [OF assms this] show False by simp
qed

text \<open>
  On a cell in the stored form the test \<open>'success' in cell\<close> reads the tag: it holds of
  a cell tagged \<open>success\<close> and fails of a cell tagged \<open>failed\<close>.
\<close>

lemma stored_cell_reading:
  assumes "timestamp_shaped d t" and "tag = ''success'' \<or> tag = ''failed''"
  shows "py_in ''success'' (tag @ ''_'' @ d @ ''_'' @ t) \<longleftrightarrow> tag = ''success''"
proof (cases "tag = ''success''")
  case True
  with py_in_prefix [of "''success''" "''_'' @ d @ ''_'' @ t"] show ?thesis by simp
next
  case False
  with assms(2) have "tag = ''failed''" by simp
  with failed_cell_not_success [OF assms(1)] show ?thesis by simp
qed

lemma failed_cell_is_failed: "py_in ''failed'' (''failed_'' @ s)"
  using py_in_prefix [of "''failed''" "''_'' @ s"] by simp

lemma retry_time_in_range:
  assumes "timedelta_range delay" and "datetime_range (start + delay)"
  shows "retry_time start delay = Inr (start + delay)"
  using assms by (simp add: retry_time_def timedelta_def datetime_add_def)

lemma retry_time_overflow:
  assumes "\<not> (timedelta_range delay \<and> datetime_range (start + delay))"
  shows "retry_time start delay = Inl OverflowError"
  using assms by (auto simp: retry_time_def timedelta_def datetime_add_def)

lemma failed_check_eval:
  assumes "py_in ''failed'' cell" and "stamp_of cell = Inr st" and "strptime e st = Some T"
  shows "failed_check cfg e cell w =
           (case retry_time T (failed_retry_delay cfg) of
              Inl err \<Rightarrow> Inl err
            | Inr limit \<Rightarrow> Inr (\<not> clock e (ticks w) < limit, w\<lparr>ticks := Suc (ticks w)\<rparr>))"
  using assms by (simp add: failed_check_def now_def split: sum.splits)

lemma gate_eval_failed:
  assumes "(current_data w ! i) key = Some cell"
      and "\<not> py_in ''success'' cell"
      and "py_in ''failed'' cell" and "stamp_of cell = Inr st" and "strptime e st = Some T"
      and "str_port (port a) \<in> set ports" and "parent_ok a (current_data w ! i)"
  shows "gate cfg e a ports i key w =
           (case retry_time T (failed_retry_delay cfg) of
              Inl err \<Rightarrow> Inl err
            | Inr limit \<Rightarrow> Inr (\<not> clock e (ticks w) < limit, w\<lparr>ticks := Suc (ticks w)\<rparr>))"
proof -
  have sc: "success_check cfg e cell w = Inr (True, w)"
    using assms(2) by (simp add: success_check_def)
  show ?thesis
    unfolding gate_def Let_def row_item_def
    using assms(1,6,7) sc failed_check_eval [OF assms(3,4,5), of cfg w]
    by simp
qed

lemma gate_failed_cell:
  assumes "(current_data w ! i) key = Some (''failed_'' @ d @ ''_'' @ t)"
      and "timestamp_shaped d t" and "strptime e (d @ ''_'' @ t) = Some T"
      and "str_port (port a) \<in> set ports" and "parent_ok a (current_data w ! i)"
  shows "gate cfg e a ports i key w =
           (case retry_time T (failed_retry_delay cfg) of
              Inl err \<Rightarrow> Inl err
            | Inr limit \<Rightarrow> Inr (\<not> clock e (ticks w) < limit, w\<lparr>ticks := Suc (ticks w)\<rparr>))"
proof -
  have st: "stamp_of (''failed_'' @ d @ ''_'' @ t) = Inr (d @ ''_'' @ t)"
    using stamp_of_tagged [of "''failed''" d t] shaped_no_underscore [OF assms(2)] by simp
  show ?thesis
    by (rule gate_eval_failed [OF assms(1) failed_cell_not_success [OF assms(2)]
          failed_cell_is_failed st assms(3,4,5)])
qed

text \<open>The definitions that an example unfolds to run a call of \<open>execute_action\<close>.\<close>

lemmas run_defs =
  execute_action_def gate_def dispatch_def success_check_def failed_check_def parent_ok_def
  stamp_of_def row_item_def row_get_def str_port_def str_int_def str_nat.simps
  digit_char_def now_def write_data_def set_cell_def runs_plugin_def Let_def
  example_cfg_def example_env_def example_strftime_def example_strptime_def two_digits_def
  answering_def crashing_def target_def world_of_def midnight_def retry_time_def
  timedelta_def datetime_add_def timedelta_range_def datetime_range_def datetime_min_def
  datetime_max_def

section \<open>The claims about \<open>execute_action\<close>\<close>

text \<open>
  C1. An action whose parent is the action \<open>P\<close> is executed on a row only if the row's
  cell for \<open>P\<close> holds a success: the string \<open>success\<close> occurs in it, which is how the
  source reads the tag. The name of an action is the name of a class, so \<open>P\<close> is not the
  empty string.
\<close>

theorem child_needs_parent_success:
  assumes "runs_plugin w (execute_action cfg e a ip ports i key w)"
      and "b_parent_action a = Some P" and "P \<noteq> []"
  shows "py_in ''success'' (row_get (current_data w ! i) P '''')"
proof -
  from assms(1) obtain w1 where g: "gate cfg e a ports i key w = Inr (True, w1)"
    by (auto simp: runs_plugin_iff_gate)
  from gate_cases [OF g] have "parent_ok a (current_data w ! i)" by auto
  with assms(2,3) show ?thesis by (simp add: parent_ok_def)
qed

theorem child_needs_parent_success_witness:
  "runs_plugin (world_of [T1_done])
     (execute_action example_cfg example_env ActionZ ''10.0.0.1'' [''80''] 0 ''ActionZ''
        (world_of [T1_done])) \<and>
   b_parent_action ActionZ = Some ''ActionX'' \<and> ''ActionX'' \<noteq> [] \<and>
   py_in ''success'' (row_get (current_data (world_of [T1_done]) ! 0) ''ActionX'' '''')"
proof -
  have h1: "runs_plugin (world_of [T1_done])
     (execute_action example_cfg example_env ActionZ ''10.0.0.1'' [''80''] 0 ''ActionZ''
        (world_of [T1_done]))"
    by (simp add: run_defs ActionZ_def T1_done_def)
  have h2: "b_parent_action ActionZ = Some ''ActionX''" by (simp add: ActionZ_def)
  have h3: "''ActionX'' \<noteq> []" by simp
  from child_needs_parent_success [OF h1 h2 h3] h1 h2 h3 show ?thesis by blast
qed

text \<open>
  C2. With \<open>retry_success_actions\<close> off, a call of \<open>execute_action\<close> for a cell that
  holds a success returns \<open>False\<close> and leaves the whole state as it was, at whatever
  instant and in whatever state it is made: the cell still holds the success at the next
  evaluation, which ends the same way.
\<close>

theorem success_not_retried:
  assumes "\<not> retry_success_actions cfg"
      and "(current_data w ! i) key = Some cell"
      and "py_in ''success'' cell"
  shows "execute_action cfg e a ip ports i key w = Inr (False, w)"
  using assms
  by (simp add: execute_action_def gate_def success_check_def row_item_def Let_def)

theorem success_not_retried_witness:
  "\<not> retry_success_actions example_cfg \<and>
   (current_data (world_of [T1_done]) ! 0) ''ActionX'' = Some ''success_20240101_000000'' \<and>
   py_in ''success'' ''success_20240101_000000'' \<and>
   execute_action example_cfg example_env ActionX ''10.0.0.1'' [''80''] 0 ''ActionX''
     (world_of [T1_done]) = Inr (False, world_of [T1_done])"
proof -
  have h1: "\<not> retry_success_actions example_cfg" by (simp add: example_cfg_def)
  have h2: "(current_data (world_of [T1_done]) ! 0) ''ActionX'' = Some ''success_20240101_000000''"
    by (simp add: world_of_def T1_done_def)
  have h3: "py_in ''success'' ''success_20240101_000000''" by simp
  from success_not_retried [OF h1 h2 h3] h1 h2 h3 show ?thesis by blast
qed

text \<open>
  C3. For a cell \<open>failed_YYYYMMDD_HHMMSS\<close> whose timestamp parses to the instant
  \<open>T\<close>, with a delay that is a \<open>timedelta\<close> and a retry time \<open>T + failed_retry_delay\<close>
  that is a \<open>datetime\<close>, the evaluation raises nothing, and the action is executed exactly
  when the clock, read on line 155, has reached \<open>T + failed_retry_delay\<close> and the port and
  parent rules pass: before that instant it is never executed, from that instant on it is
  whenever the other rules pass.
\<close>

theorem failed_cooldown:
  assumes "(current_data w ! i) key = Some (''failed_'' @ d @ ''_'' @ t)"
      and "timestamp_shaped d t"
      and "strptime e (d @ ''_'' @ t) = Some T"
      and "timedelta_range (failed_retry_delay cfg)"
      and "datetime_range (T + failed_retry_delay cfg)"
  shows "(\<exists>b w'. execute_action cfg e a ip ports i key w = Inr (b, w')) \<and>
         (runs_plugin w (execute_action cfg e a ip ports i key w) \<longleftrightarrow>
            (T + failed_retry_delay cfg \<le> clock e (ticks w) \<and>
             str_port (port a) \<in> set ports \<and> parent_ok a (current_data w ! i)))"
proof (cases "str_port (port a) \<in> set ports \<and> parent_ok a (current_data w ! i)")
  case True
  from gate_failed_cell [OF assms(1,2,3), of a ports cfg] True
       retry_time_in_range [OF assms(4,5)]
  have g: "gate cfg e a ports i key w =
          Inr (\<not> clock e (ticks w) < T + failed_retry_delay cfg, w\<lparr>ticks := Suc (ticks w)\<rparr>)"
    by simp
  from execute_action_returns [OF g] g True show ?thesis
    by (auto simp: runs_plugin_iff_gate)
next
  case False
  then have g: "gate cfg e a ports i key w = Inr (False, w)"
    by (auto simp: gate_def Let_def)
  from execute_action_returns [OF g] g False show ?thesis
    by (auto simp: runs_plugin_iff_gate)
qed

theorem failed_cooldown_witness:
  "(current_data (world_of [T1_failed]) ! 0) ''ActionX'' =
      Some (''failed_'' @ ''20240101'' @ ''_'' @ ''000000'') \<and>
   timestamp_shaped ''20240101'' ''000000'' \<and>
   strptime example_env (''20240101'' @ ''_'' @ ''000000'') = Some midnight \<and>
   timedelta_range (failed_retry_delay example_cfg) \<and>
   datetime_range (midnight + failed_retry_delay example_cfg) \<and>
   timedelta_range 1800 \<and> datetime_range (midnight + 1800) \<and>
   clock example_env (ticks (world_of [T1_failed])) = midnight + 1800 \<and>
   \<not> runs_plugin (world_of [T1_failed])
       (execute_action example_cfg example_env ActionX ''10.0.0.1'' [''80''] 0 ''ActionX''
          (world_of [T1_failed])) \<and>
   runs_plugin (world_of [T1_failed])
       (execute_action (example_cfg\<lparr>failed_retry_delay := 1800\<rparr>) example_env ActionX
          ''10.0.0.1'' [''80''] 0 ''ActionX'' (world_of [T1_failed]))"
proof -
  have h1: "(current_data (world_of [T1_failed]) ! 0) ''ActionX'' =
      Some (''failed_'' @ ''20240101'' @ ''_'' @ ''000000'')"
    by (simp add: world_of_def T1_failed_def)
  have h2: "timestamp_shaped ''20240101'' ''000000''" by (simp add: timestamp_shaped_def)
  have h3: "strptime example_env (''20240101'' @ ''_'' @ ''000000'') = Some midnight"
    by (simp add: example_env_def example_strptime_def)
  have h4: "timedelta_range (failed_retry_delay example_cfg)"
    by (simp add: timedelta_range_def example_cfg_def)
  have h5: "datetime_range (midnight + failed_retry_delay example_cfg)"
    by (simp add: datetime_range_def datetime_min_def datetime_max_def midnight_def
          example_cfg_def)
  have h4': "timedelta_range 1800" by (simp add: timedelta_range_def)
  have h5': "datetime_range (midnight + 1800)"
    by (simp add: datetime_range_def datetime_min_def datetime_max_def midnight_def)
  have now: "clock example_env (ticks (world_of [T1_failed])) = midnight + 1800"
    by (simp add: example_env_def world_of_def)
  have rules: "str_port (port ActionX) \<in> set [''80''] \<and>
               parent_ok ActionX (current_data (world_of [T1_failed]) ! 0)"
    by (simp add: ActionX_def str_port_def str_int_def str_nat.simps digit_char_def
          parent_ok_def)
  have early: "\<not> runs_plugin (world_of [T1_failed])
       (execute_action example_cfg example_env ActionX ''10.0.0.1'' [''80''] 0 ''ActionX''
          (world_of [T1_failed]))"
    using failed_cooldown [OF h1 h2 h3 h4 h5, of ActionX "''10.0.0.1''" "[''80'']"] now
    by (simp add: example_cfg_def)
  have late: "runs_plugin (world_of [T1_failed])
       (execute_action (example_cfg\<lparr>failed_retry_delay := 1800\<rparr>) example_env ActionX
          ''10.0.0.1'' [''80''] 0 ''ActionX'' (world_of [T1_failed]))"
    using failed_cooldown [OF h1 h2 h3, of "example_cfg\<lparr>failed_retry_delay := 1800\<rparr>"
            ActionX "''10.0.0.1''" "[''80'']"] h4' h5' now rules
    by (simp add: example_cfg_def)
  from h1 h2 h3 h4 h5 h4' h5' now early late show ?thesis by blast
qed

text \<open>What the call of the plug-in leaves behind, whatever the plug-in does.\<close>

lemma dispatch_raises:
  assumes "execute a (length (executed w)) ip (str_port (port a)) (current_data w ! i) key = Raises"
      and "i < length (current_data w)"
  shows "\<exists>w'. dispatch e a ip i key w = (False, w') \<and>
           (current_data w' ! i) key = Some (''failed_'' @ strftime e (clock e (ticks w))) \<and>
           store w' = current_data w' \<and>
           executed w' = executed w @ [(action_name a, ip)]"
  using assms by (simp add: dispatch_def now_def write_data_def set_cell_def Let_def)

lemma dispatch_cell:
  assumes "i < length (current_data w)"
  shows "\<exists>b w'. dispatch e a ip i key w = (b, w') \<and>
           (current_data w' ! i) key =
              Some ((if b then ''success_'' else ''failed_'') @ strftime e (clock e (ticks w))) \<and>
           store w' = current_data w'"
  using assms
  by (auto simp: dispatch_def now_def write_data_def set_cell_def Let_def split: outcome.splits)

text \<open>
  C6. When the rules let the action through and its \<open>execute\<close> raises, \<open>execute_action\<close>
  returns \<open>False\<close> and raises nothing; the row's cell for the action is then
  \<open>failed_\<close> followed by the time read on line 176, the table persisted is the whole
  current table, and the call is on the list of executions.
\<close>

theorem plugin_exception_recorded:
  assumes "gate cfg e a ports i key w = Inr (True, w1)"
      and "execute a (length (executed w)) ip (str_port (port a)) (current_data w ! i) key = Raises"
      and "i < length (current_data w)"
  shows "\<exists>w'. execute_action cfg e a ip ports i key w = Inr (False, w') \<and>
           (current_data w' ! i) key = Some (''failed_'' @ strftime e (clock e (ticks w1))) \<and>
           store w' = current_data w' \<and>
           executed w' = executed w @ [(action_name a, ip)]"
proof -
  have ex: "executed w1 = executed w" and cd: "current_data w1 = current_data w"
    using gate_executed [OF assms(1)] gate_current_data [OF assms(1)] by simp_all
  from assms(2,3) ex cd
  have "execute a (length (executed w1)) ip (str_port (port a)) (current_data w1 ! i) key = Raises"
    and "i < length (current_data w1)" by simp_all
  from dispatch_raises [OF this, of e] ex assms(1) show ?thesis
    by (auto simp: execute_action_def)
qed

theorem plugin_exception_recorded_witness:
  "gate example_cfg example_env ActionC [''80''] 0 ''ActionC'' (world_of [T1_fresh]) =
      Inr (True, world_of [T1_fresh]) \<and>
   execute ActionC (length (executed (world_of [T1_fresh]))) ''10.0.0.1''
      (str_port (port ActionC)) (current_data (world_of [T1_fresh]) ! 0) ''ActionC'' = Raises \<and>
   0 < length (current_data (world_of [T1_fresh])) \<and>
   (\<exists>w'. execute_action example_cfg example_env ActionC ''10.0.0.1'' [''80''] 0 ''ActionC''
            (world_of [T1_fresh]) = Inr (False, w') \<and>
         (current_data w' ! 0) ''ActionC'' = Some ''failed_20240101_003000'' \<and>
         store w' = current_data w' \<and>
         executed w' = [(''ActionC'', ''10.0.0.1'')])"
proof -
  have h1: "gate example_cfg example_env ActionC [''80''] 0 ''ActionC'' (world_of [T1_fresh]) =
      Inr (True, world_of [T1_fresh])"
    by (simp add: run_defs ActionC_def T1_fresh_def)
  have h2: "execute ActionC (length (executed (world_of [T1_fresh]))) ''10.0.0.1''
      (str_port (port ActionC)) (current_data (world_of [T1_fresh]) ! 0) ''ActionC'' = Raises"
    by (simp add: ActionC_def crashing_def)
  have h3: "0 < length (current_data (world_of [T1_fresh]))" by (simp add: world_of_def)
  have stamp: "''failed_'' @ strftime example_env (clock example_env (ticks (world_of [T1_fresh])))
                 = ''failed_20240101_003000''"
    by (simp add: run_defs)
  have names: "executed (world_of [T1_fresh]) @ [(action_name ActionC, ''10.0.0.1'')] =
                 [(''ActionC'', ''10.0.0.1'')]"
    by (simp add: world_of_def ActionC_def)
  from plugin_exception_recorded [OF h1 h2 h3] stamp names h1 h2 h3 show ?thesis by auto
qed

text \<open>
  C8, as the source has it. A status cell that holds the failed tag (or the success tag,
  with retries of successes on), that has three fields or more, and whose timestamp
  \<open>strptime\<close> rejects: the \<open>ValueError\<close> is caught and logged, no rule holds the action
  back, and with the port and parent rules passing the action is executed and the cell is
  overwritten with the outcome of that execution.
\<close>

theorem unparsed_timestamp_executes:
  assumes "(current_data w ! i) key = Some cell"
      and "py_in ''failed'' cell \<or> py_in ''success'' cell"
      and "py_in ''success'' cell \<longrightarrow> retry_success_actions cfg"
      and "stamp_of cell = Inr st" and "strptime e st = None"
      and "str_port (port a) \<in> set ports" and "parent_ok a (current_data w ! i)"
      and "i < length (current_data w)"
  shows "runs_plugin w (execute_action cfg e a ip ports i key w) \<and>
         (\<exists>b w'. execute_action cfg e a ip ports i key w = Inr (b, w') \<and>
            (current_data w' ! i) key =
               Some ((if b then ''success_'' else ''failed_'') @ strftime e (clock e (ticks w))))"
proof -
  have sc: "success_check cfg e cell w = Inr (True, w)"
    using assms(3,4,5) by (simp add: success_check_def)
  have fc: "failed_check cfg e cell w = Inr (True, w)"
    using assms(4,5) by (simp add: failed_check_def)
  have g: "gate cfg e a ports i key w = Inr (True, w)"
    using assms(1,6,7) sc fc by (simp add: gate_def row_item_def Let_def)
  then have r: "runs_plugin w (execute_action cfg e a ip ports i key w)"
    by (auto simp: runs_plugin_iff_gate)
  from dispatch_cell [OF assms(8), of e a ip key] g r show ?thesis
    by (auto simp: execute_action_def)
qed

theorem unparsed_timestamp_executes_witness:
  "(current_data (world_of [T1_corrupt]) ! 0) ''ActionX'' = Some ''failed_garbage_x'' \<and>
   py_in ''failed'' ''failed_garbage_x'' \<and> \<not> py_in ''success'' ''failed_garbage_x'' \<and>
   stamp_of ''failed_garbage_x'' = Inr ''garbage_x'' \<and>
   strptime example_env ''garbage_x'' = None \<and>
   str_port (port ActionX) \<in> set [''80''] \<and>
   parent_ok ActionX (current_data (world_of [T1_corrupt]) ! 0) \<and>
   0 < length (current_data (world_of [T1_corrupt])) \<and>
   runs_plugin (world_of [T1_corrupt])
     (execute_action example_cfg example_env ActionX ''10.0.0.1'' [''80''] 0 ''ActionX''
        (world_of [T1_corrupt]))"
proof -
  have h1: "(current_data (world_of [T1_corrupt]) ! 0) ''ActionX'' = Some ''failed_garbage_x''"
    by (simp add: world_of_def T1_corrupt_def)
  have h2: "py_in ''failed'' ''failed_garbage_x'' \<or> py_in ''success'' ''failed_garbage_x''"
    by simp
  have h2': "py_in ''failed'' ''failed_garbage_x''" by simp
  have n3: "\<not> py_in ''success'' ''failed_garbage_x''" by simp
  then have h3: "py_in ''success'' ''failed_garbage_x'' \<longrightarrow> retry_success_actions example_cfg"
    by simp
  have h4: "stamp_of ''failed_garbage_x'' = Inr ''garbage_x''" by (simp add: stamp_of_def)
  have h5: "strptime example_env ''garbage_x'' = None"
    by (simp add: example_env_def example_strptime_def)
  have h6: "str_port (port ActionX) \<in> set [''80'']"
    by (simp add: ActionX_def str_port_def str_int_def str_nat.simps digit_char_def)
  have h7: "parent_ok ActionX (current_data (world_of [T1_corrupt]) ! 0)"
    by (simp add: parent_ok_def ActionX_def)
  have h8: "0 < length (current_data (world_of [T1_corrupt]))" by (simp add: world_of_def)
  from unparsed_timestamp_executes [OF h1 h2 h3 h4 h5 h6 h7 h8, of "''10.0.0.1''"]
  have "runs_plugin (world_of [T1_corrupt])
     (execute_action example_cfg example_env ActionX ''10.0.0.1'' [''80''] 0 ''ActionX''
        (world_of [T1_corrupt]))" by blast
  with h1 h2' n3 h4 h5 h6 h7 h8 show ?thesis by blast
qed

text \<open>
  C8 as the specification states it fails: the cell \<open>failed_garbage_x\<close> holds the failed
  tag and a timestamp that does not parse, and the evaluation does not skip the attempt.
  \<open>ActionX\<close> is executed and the cell is overwritten.
\<close>

theorem unparsed_timestamp_not_skipped:
  "py_in ''failed'' ''failed_garbage_x'' \<and>
   strptime example_env ''garbage_x'' = None \<and>
   (case execute_action example_cfg example_env ActionX ''10.0.0.1'' [''80''] 0 ''ActionX''
           (world_of [T1_corrupt]) of
      Inl err \<Rightarrow> False
    | Inr (b, w') \<Rightarrow>
        executed w' = [(''ActionX'', ''10.0.0.1'')] \<and>
        (current_data (world_of [T1_corrupt]) ! 0) ''ActionX'' = Some ''failed_garbage_x'' \<and>
        (current_data w' ! 0) ''ActionX'' = Some ''success_20240101_003000'')"
  by (simp add: run_defs ActionX_def T1_corrupt_def)

text \<open>
  Line 137 reads \<open>row[action_key]\<close>: on a row that has no cell for the action, and with
  the port and parent rules passing, it raises \<open>KeyError\<close>. A cell that is there and
  empty passes every rule.
\<close>

lemma absent_cell_raises:
  assumes "(current_data w ! i) key = None"
      and "str_port (port a) \<in> set ports" and "parent_ok a (current_data w ! i)"
  shows "execute_action cfg e a ip ports i key w = Inl KeyError"
  using assms by (simp add: execute_action_def gate_def row_item_def Let_def)

lemma empty_cell_eligible:
  assumes "(current_data w ! i) key = Some ''''"
      and "str_port (port a) \<in> set ports" and "parent_ok a (current_data w ! i)"
  shows "gate cfg e a ports i key w = Inr (True, w)"
  using assms
  by (simp add: gate_def row_item_def success_check_def failed_check_def Let_def)

text \<open>
  C9 at a row without a status cell for \<open>ActionX\<close>: the target is alive, port 80 is open
  and \<open>ActionX\<close> has no parent, and the evaluation raises \<open>KeyError\<close>; so does the
  cycle that makes it.
\<close>

theorem absent_cell_key_error:
  "T1_absent ''ActionX'' = None \<and>
   execute_action example_cfg example_env ActionX ''10.0.0.1'' [''80''] 0 ''ActionX''
     (world_of [T1_absent]) = Inl KeyError \<and>
   process_alive_ips example_cfg example_env [ActionX] (world_of [T1_absent]) = Inl KeyError"
  by (simp add: run_defs process_alive_ips_def ActionX_def T1_absent_def)

section \<open>The claims about a cycle\<close>

lemmas cycle_defs = process_alive_ips_def truthy_def run_defs

text \<open>
  C4 at a table whose only row is not alive. The row has port 80 open and a success of
  \<open>ActionX\<close>; \<open>ActionZ\<close> is a child of \<open>ActionX\<close> on port 80. The loop of lines 116 to
  123 does not look at \<open>Alive\<close>: the cycle executes \<open>ActionZ\<close> on the row, writes its
  cell and returns \<open>True\<close>.
\<close>

theorem dead_target_child_executed:
  "row_item T0_dead ''Alive'' = Inr ''0'' \<and>
   (case process_alive_ips example_cfg example_env [ActionX, ActionZ] (world_of [T0_dead]) of
      Inl err \<Rightarrow> False
    | Inr (b, w') \<Rightarrow>
        b \<and> executed w' = [(''ActionZ'', ''10.0.0.1'')] \<and>
        (current_data w' ! 0) ''ActionZ'' = Some ''success_20240101_003000'')"
  by (simp add: cycle_defs ActionX_def ActionZ_def T0_dead_def)

text \<open>
  C5 as the specification states it fails. The registry of scenario A loads \<open>ActionY\<close>,
  whose port is 0, into \<open>standalone_actions\<close>, a list that no loop of
  \<open>process_alive_ips\<close> runs over: the cycle does not execute \<open>ActionY\<close> and leaves its
  cell empty. Were \<open>ActionY\<close> among \<open>actions\<close>, line 129 would still ask for the
  string \<open>0\<close> among the open ports of the target.
\<close>

theorem standalone_child_not_executed:
  "(case load_actions example_packages [record_x, record_y] new_orchestrator of
      Inl err \<Rightarrow> False
    | Inr orch \<Rightarrow>
        actions orch = [ActionX] \<and> standalone_actions orch = [ActionY] \<and>
        (case process_alive_ips example_cfg example_env (actions orch) (world_of [T1]) of
           Inl err \<Rightarrow> False
         | Inr (b, w') \<Rightarrow>
             (''ActionY'', ''10.0.0.1'') \<notin> set (executed w') \<and>
             (current_data w' ! 0) ''ActionY'' = Some '''')) \<and>
   (case process_alive_ips example_cfg example_env [ActionX, ActionY] (world_of [T1]) of
      Inl err \<Rightarrow> False
    | Inr (b, w') \<Rightarrow> (''ActionY'', ''10.0.0.1'') \<notin> set (executed w'))"
  by (simp add: cycle_defs load_action_def new_orchestrator_def example_packages_def
        record_x_def record_y_def ActionX_def ActionY_def T1_def)

text \<open>
  C5, as the source has it. Scenario A with the two status cells of the target empty and
  with plug-ins that answer \<open>success\<close>: one cycle executes \<open>ActionX\<close> on the target
  and nothing else, marks its cell \<open>success_\<close> with the time of the execution, persists
  the table and returns \<open>True\<close>; \<open>ActionY\<close> is loaded as a standalone action, is not
  executed in the cycle, and its cell stays empty.
\<close>

theorem scenario_A:
  "(case load_actions example_packages [record_x, record_y] new_orchestrator of
      Inl err \<Rightarrow> False
    | Inr orch \<Rightarrow>
        actions orch = [ActionX] \<and> standalone_actions orch = [ActionY] \<and>
        (case process_alive_ips example_cfg example_env (actions orch) (world_of [T1]) of
           Inl err \<Rightarrow> False
         | Inr (b, w') \<Rightarrow>
             b \<and> executed w' = [(''ActionX'', ''10.0.0.1'')] \<and>
             (current_data w' ! 0) ''ActionX'' = Some ''success_20240101_003000'' \<and>
             (current_data w' ! 0) ''ActionY'' = Some '''' \<and>
             store w' = current_data w' \<and>
             bjornorch_status w' = ''ActionX''))"
  by (simp add: cycle_defs load_action_def new_orchestrator_def example_packages_def
        record_x_def record_y_def ActionX_def ActionY_def T1_def)

section \<open>The claims about the outer loop and about loading\<close>

text \<open>
  A call of \<open>poll\<close> that returns has raised: the loop of lines 83 to 99 has no exit, so
  the only way out is the \<open>KeyError\<close> of a credentials entry without \<open>SSID\<close> or
  \<open>Password\<close>.
\<close>

lemma poll_result:
  assumes "poll wm status n = Some y"
  shows "\<exists>k err. y = Inl err \<and>
           try_networks (connect_to_network wm k) (scan_available_networks wm k)
             (credentials wm) = Inl err"
proof (rule poll.raw_induct [where P = "\<lambda>wm status n y. \<exists>k err. y = Inl err \<and>
           try_networks (connect_to_network wm k) (scan_available_networks wm k)
             (credentials wm) = Inl err", OF _ assms])
  fix f :: "wifi \<Rightarrow> string \<Rightarrow> nat \<Rightarrow> (error + unit) option" and wm status n y
  assume ih: "\<And>wm status n y. f wm status n = Some y \<Longrightarrow> \<exists>k err. y = Inl err \<and>
           try_networks (connect_to_network wm k) (scan_available_networks wm k)
             (credentials wm) = Inl err"
    and step: "(if status = ''idle_action'' then
        (case try_networks (connect_to_network wm n) (scan_available_networks wm n)
                (credentials wm) of
           Inl err \<Rightarrow> Some (Inl err)
         | Inr connected \<Rightarrow> f wm status (Suc n))
      else f wm status (Suc n)) = Some y"
  show "\<exists>k err. y = Inl err \<and>
           try_networks (connect_to_network wm k) (scan_available_networks wm k)
             (credentials wm) = Inl err"
  proof (cases "status = ''idle_action'' \<and>
      isl (try_networks (connect_to_network wm n) (scan_available_networks wm n) (credentials wm))")
    case True
    with step show ?thesis by (auto split: sum.splits)
  next
    case False
    with step have "f wm status (Suc n) = Some y" by (auto split: if_splits sum.splits)
    from ih [OF this] show ?thesis .
  qed
qed

lemma poll_never_returns: "poll wm status n \<noteq> Some (Inr u)"
  using poll_result [of wm status n "Inr u"] by auto

lemma poll_no_credentials:
  assumes "credentials wm = []"
  shows "poll wm status n = None"
proof (cases "poll wm status n")
  case None
  then show ?thesis .
next
  case (Some y)
  from poll_result [OF Some] assms show ?thesis by simp
qed

text \<open>
  An iteration of \<open>run\<close> in which both cycles report no execution, with a scanner loaded,
  calls \<open>switch_network_if_idle\<close>, and does not come back from it.
\<close>

lemma idle_iteration_value:
  assumes "process_alive_ips cfg e (actions orch) (read_data w) = Inr (False, w1)"
      and "network_scanner orch = Some sc"
      and "process_alive_ips cfg e (actions orch)
             (read_data (network_scan co k
                (w1\<lparr>bjornorch_status := ''IDLE'', bjornstatustext2 := '''',
                    bjornorch_status := ''NetworkScanner''\<rparr>)))
           = Inr (False, w4)"
  shows "run_iteration cfg e co wm orch k w =
           (case switch_network_if_idle wm (w4\<lparr>bjornorch_status := ''idle_action''\<rparr>) of
              None \<Rightarrow> None
            | Some (Inl err) \<Rightarrow> Some (Inl err)
            | Some (Inr u) \<Rightarrow>
                Some (Inr (sleep (scan_interval cfg) (w4\<lparr>bjornorch_status := ''idle_action''\<rparr>))))"
  using assms by (simp add: run_iteration_def Let_def)

text \<open>
  C7 at an iteration in which nothing is eligible: the one target has a success of
  \<open>ActionX\<close>, retries of successes are off, and the scan finds nothing new. Both cycles
  leave the state as it is and report no execution; the iteration then calls
  \<open>switch_network_if_idle\<close>, which does not return, so the iteration does not reach the
  sleep of line 213: its value is \<open>None\<close>.
\<close>

theorem idle_iteration_does_not_return:
  "process_alive_ips example_cfg example_env (actions example_orchestrator)
      (world_of [T1_done]) = Inr (False, world_of [T1_done]) \<and>
   run_iteration example_cfg example_env example_collaborators example_wifi
      example_orchestrator 1 (world_of [T1_done]) = None"
proof -
  have cycle: "\<And>w. current_data w = [T1_done] \<Longrightarrow>
      process_alive_ips example_cfg example_env [ActionX] w = Inr (False, w)"
    by (simp add: cycle_defs ActionX_def T1_done_def)
  have acts: "actions example_orchestrator = [ActionX]"
    and scanner: "network_scanner example_orchestrator = Some ''NetworkScanner''"
    by (simp_all add: example_orchestrator_def)
  have rd0: "read_data (world_of [T1_done]) = world_of [T1_done]"
    by (simp add: read_data_def world_of_def)
  have first: "process_alive_ips example_cfg example_env (actions example_orchestrator)
                 (read_data (world_of [T1_done])) = Inr (False, world_of [T1_done])"
    unfolding acts rd0 by (rule cycle) (simp add: world_of_def)
  define w3 where "w3 = read_data (network_scan example_collaborators 1
      ((world_of [T1_done])\<lparr>bjornorch_status := ''IDLE'', bjornstatustext2 := '''',
          bjornorch_status := ''NetworkScanner''\<rparr>))"
  have "current_data w3 = [T1_done]"
    by (simp add: w3_def read_data_def network_scan_def example_collaborators_def world_of_def)
  from cycle [OF this]
  have second: "process_alive_ips example_cfg example_env (actions example_orchestrator) w3 =
                  Inr (False, w3)"
    unfolding acts .
  have p: "switch_network_if_idle example_wifi (w3\<lparr>bjornorch_status := ''idle_action''\<rparr>) = None"
    unfolding switch_network_if_idle_def
    by (rule poll_no_credentials) (simp add: example_wifi_def)
  have "run_iteration example_cfg example_env example_collaborators example_wifi
      example_orchestrator 1 (world_of [T1_done]) = None"
    unfolding idle_iteration_value [OF first scanner second [unfolded w3_def], folded w3_def] p
    by simp
  with first show ?thesis by (simp add: rd0)
qed

text \<open>
  C10 as the specification states it fails: a record that names a module which cannot be
  imported is not skipped. The import of line 71 is outside the \<open>try\<close>, the error leaves
  \<open>load_actions\<close>, and the record after it is not loaded.
\<close>

theorem unknown_module_aborts_loading:
  "example_packages ''ghost'' = None \<and>
   load_actions example_packages [record_ghost, record_x] new_orchestrator = Inl ImportError"
  by (simp add: load_action_def example_packages_def record_ghost_def)

text \<open>
  C10, as the source has it. A record that names a module that imports and a class the
  module does not define is skipped, and only that record: the registry loads exactly as
  it does without the record, whatever stands before and after it.
\<close>

theorem unknown_class_skipped:
  assumes "b_module rec = Some m" and "m \<noteq> ''scanning''" and "m \<noteq> ''nmap_vuln_scanner''"
      and "pk m = Some md" and "b_class rec = Some cls" and "classes md cls = None"
  shows "load_actions pk (before @ rec # rest) orch = load_actions pk (before @ rest) orch"
proof (induction before arbitrary: orch)
  case Nil
  from assms show ?case by (simp add: load_action_def)
next
  case (Cons r rs)
  then show ?case by (simp split: option.splits sum.splits)
qed

theorem unknown_class_skipped_witness:
  "b_module record_typo = Some ''action_x'' \<and> ''action_x'' \<noteq> ''scanning'' \<and>
   ''action_x'' \<noteq> ''nmap_vuln_scanner'' \<and>
   b_class record_typo = Some ''ActionTypo'' \<and>
   (case example_packages ''action_x'' of
      None \<Rightarrow> False | Some md \<Rightarrow> classes md ''ActionTypo'' = None) \<and>
   load_actions example_packages ([record_x] @ record_typo # [record_y]) new_orchestrator =
     load_actions example_packages ([record_x] @ [record_y]) new_orchestrator \<and>
   (case load_actions example_packages [record_x, record_typo, record_y] new_orchestrator of
      Inl err \<Rightarrow> False
    | Inr orch \<Rightarrow> actions orch = [ActionX] \<and> standalone_actions orch = [ActionY])"
proof -
  have h1: "b_module record_typo = Some ''action_x''" by (simp add: record_typo_def)
  have h2: "''action_x'' \<noteq> ''scanning''" and h3: "''action_x'' \<noteq> ''nmap_vuln_scanner''"
    by simp_all
  have h4: "example_packages ''action_x'' =
              Some \<lparr>b_class_attr = Some ''ActionX'',
                    classes = [''ActionX'' \<mapsto> answering ''success'']\<rparr>"
    by (simp add: example_packages_def)
  have h5: "b_class record_typo = Some ''ActionTypo''" by (simp add: record_typo_def)
  have h6: "classes \<lparr>b_class_attr = Some ''ActionX'',
                     classes = [''ActionX'' \<mapsto> answering ''success'']\<rparr> ''ActionTypo'' = None"
    by simp
  have skip: "load_actions example_packages ([record_x] @ record_typo # [record_y])
                new_orchestrator =
              load_actions example_packages ([record_x] @ [record_y]) new_orchestrator"
    by (rule unknown_class_skipped [where pk = example_packages, OF h1 h2 h3 h4 h5 h6])
  have rest: "(case load_actions example_packages ([record_x] @ [record_y]) new_orchestrator of
      Inl err \<Rightarrow> False
    | Inr orch \<Rightarrow> actions orch = [ActionX] \<and> standalone_actions orch = [ActionY])"
    by (simp add: load_action_def new_orchestrator_def example_packages_def
          record_x_def record_y_def ActionX_def ActionY_def)
  from skip rest have all: "(case load_actions example_packages [record_x, record_typo, record_y]
        new_orchestrator of
      Inl err \<Rightarrow> False
    | Inr orch \<Rightarrow> actions orch = [ActionX] \<and> standalone_actions orch = [ActionY])"
    by simp
  from h1 h2 h3 h4 h5 h6 skip all show ?thesis by simp
qed

section \<open>Further properties of the cycle\<close>

lemma top_rows_not_alive:
  assumes "\<forall>i \<in> set idxs. not_alive (current_data w ! i)"
  shows "top_rows cfg e acts a idxs (b, w) = Inr (b, w)"
  using assms
  by (induction idxs) (auto simp: not_alive_def row_item_def Let_def split: option.splits)

lemma top_level_pass_not_alive:
  assumes "\<forall>r \<in> set (current_data w). not_alive r"
  shows "top_level_pass cfg e acts as (b, w) = Inr (b, w)"
proof (induction as)
  case Nil
  show ?case by simp
next
  case (Cons a as)
  have "\<forall>i \<in> set [0 ..< length (current_data w)]. not_alive (current_data w ! i)"
    using assms by simp
  from top_rows_not_alive [OF this] Cons show ?case by simp
qed

lemma child_sweep_no_children:
  assumes "\<forall>a \<in> set as. \<not> truthy (b_parent_action a)"
  shows "child_sweep cfg e as (b, w) = Inr (b, w)"
  using assms by (induction as) auto

text \<open>
  The part of the idempotence property that the source has: on a table in which no row is
  alive, the loops of lines 90 to 111 execute nothing and change nothing, and when no
  action of the registry has a parent the whole cycle returns \<open>False\<close> with the state
  as it was.
\<close>

theorem no_live_row_no_children_idle:
  assumes "\<forall>r \<in> set (current_data w). not_alive r"
      and "\<forall>a \<in> set acts. \<not> truthy (b_parent_action a)"
  shows "top_level_pass cfg e acts acts (False, w) = Inr (False, w) \<and>
         process_alive_ips cfg e acts w = Inr (False, w)"
  using top_level_pass_not_alive [OF assms(1)] child_sweep_no_children [OF assms(2)]
  by (simp add: process_alive_ips_def)

theorem no_live_row_no_children_idle_witness:
  "not_alive T0_dead \<and> \<not> truthy (b_parent_action ActionX) \<and>
   process_alive_ips example_cfg example_env [ActionX] (world_of [T0_dead]) =
     Inr (False, world_of [T0_dead])"
proof -
  have h1: "\<forall>r \<in> set (current_data (world_of [T0_dead])). not_alive r"
    by (simp add: world_of_def not_alive_def T0_dead_def target_def)
  have h2: "\<forall>a \<in> set [ActionX]. \<not> truthy (b_parent_action a)"
    by (simp add: truthy_def ActionX_def)
  from no_live_row_no_children_idle [OF h1 h2, of example_cfg example_env] h1 h2
  show ?thesis by (simp add: world_of_def)
qed

text \<open>
  Scenario C of the specification: an action whose port is not among the open ports of the
  target is not executed, whatever the status cells hold; the call returns \<open>False\<close> and
  changes nothing.
\<close>

theorem port_mismatch_skips:
  assumes "str_port (port a) \<notin> set ports"
  shows "execute_action cfg e a ip ports i key w = Inr (False, w)"
  using assms by (simp add: execute_action_def gate_def Let_def)

theorem port_mismatch_skips_witness:
  "str_port (port ActionX) \<notin> set [''81''] \<and>
   execute_action example_cfg example_env ActionX ''10.0.0.1'' [''81''] 0 ''ActionX''
     (world_of [T1_port81]) = Inr (False, world_of [T1_port81])"
proof -
  have h: "str_port (port ActionX) \<notin> set [''81'']"
    by (simp add: ActionX_def str_port_def str_int_def str_nat.simps digit_char_def)
  from port_mismatch_skips [OF h] h show ?thesis by blast
qed

text \<open>
  Scenario B of the specification: \<open>ActionX\<close> failed at midnight, the delay is 3600
  seconds and it is half past midnight. The cycle executes nothing: \<open>ActionX\<close> is held
  back by the delay, and \<open>ActionZ\<close>, its child on the same port, by its parent's cell.
\<close>

theorem scenario_B:
  "failed_retry_delay example_cfg = 3600 \<and> clock example_env 0 = midnight + 1800 \<and>
   T1_failed ''ActionX'' = Some ''failed_20240101_000000'' \<and>
   (case process_alive_ips example_cfg example_env [ActionX, ActionZ] (world_of [T1_failed]) of
      Inl err \<Rightarrow> False
    | Inr (b, w') \<Rightarrow>
        \<not> b \<and> executed w' = [] \<and> current_data w' = [T1_failed])"
  by (simp add: cycle_defs ActionX_def ActionZ_def T1_failed_def)

text \<open>
  A status cell that is present and empty passes the success and failure rules without a
  reading of the clock: the action is executed as soon as the port and parent rules pass.
\<close>

theorem empty_cell_runs:
  assumes "(current_data w ! i) key = Some ''''"
      and "str_port (port a) \<in> set ports" and "parent_ok a (current_data w ! i)"
  shows "runs_plugin w (execute_action cfg e a ip ports i key w)"
  using empty_cell_eligible [OF assms] by (auto simp: runs_plugin_iff_gate)

theorem empty_cell_runs_witness:
  "(current_data (world_of [T1]) ! 0) ''ActionX'' = Some '''' \<and>
   str_port (port ActionX) \<in> set [''80''] \<and>
   parent_ok ActionX (current_data (world_of [T1]) ! 0) \<and>
   runs_plugin (world_of [T1])
     (execute_action example_cfg example_env ActionX ''10.0.0.1'' [''80''] 0 ''ActionX''
        (world_of [T1]))"
proof -
  have h1: "(current_data (world_of [T1]) ! 0) ''ActionX'' = Some ''''"
    by (simp add: world_of_def T1_def)
  have h2: "str_port (port ActionX) \<in> set [''80'']"
    by (simp add: ActionX_def str_port_def str_int_def str_nat.simps digit_char_def)
  have h3: "parent_ok ActionX (current_data (world_of [T1]) ! 0)"
    by (simp add: parent_ok_def ActionX_def)
  from empty_cell_runs [OF h1 h2 h3] h1 h2 h3 show ?thesis by blast
qed

text \<open>
  In any iteration of \<open>run\<close> in which both cycles report no execution and a scanner is
  loaded, the call of \<open>switch_network_if_idle\<close> does not return normally, so the
  iteration never ends with a state: it diverges or raises.
\<close>

theorem idle_iteration_never_completes:
  assumes "process_alive_ips cfg e (actions orch) (read_data w) = Inr (False, w1)"
      and "network_scanner orch = Some sc"
      and "process_alive_ips cfg e (actions orch)
             (read_data (network_scan co k
                (w1\<lparr>bjornorch_status := ''IDLE'', bjornstatustext2 := '''',
                    bjornorch_status := ''NetworkScanner''\<rparr>)))
           = Inr (False, w4)"
  shows "run_iteration cfg e co wm orch k w \<noteq> Some (Inr w')"
proof -
  have "switch_network_if_idle wm (w4\<lparr>bjornorch_status := ''idle_action''\<rparr>) \<noteq> Some (Inr ())"
    using poll_never_returns [of wm "''idle_action''" 0]
    by (simp add: switch_network_if_idle_def)
  then show ?thesis
    unfolding idle_iteration_value [OF assms]
    by (auto split: option.splits sum.splits)
qed

theorem idle_iteration_never_completes_witness:
  "process_alive_ips example_cfg example_env (actions example_orchestrator)
      (read_data (world_of [T1_done])) = Inr (False, world_of [T1_done]) \<and>
   network_scanner example_orchestrator = Some ''NetworkScanner'' \<and>
   run_iteration example_cfg example_env example_collaborators example_wifi
      example_orchestrator 1 (world_of [T1_done]) \<noteq> Some (Inr (world_of [T1_done]))"
proof -
  have cycle: "\<And>w. current_data w = [T1_done] \<Longrightarrow>
      process_alive_ips example_cfg example_env [ActionX] w = Inr (False, w)"
    by (simp add: cycle_defs ActionX_def T1_done_def)
  have acts: "actions example_orchestrator = [ActionX]"
    and scanner: "network_scanner example_orchestrator = Some ''NetworkScanner''"
    by (simp_all add: example_orchestrator_def)
  have rd0: "read_data (world_of [T1_done]) = world_of [T1_done]"
    by (simp add: read_data_def world_of_def)
  have first: "process_alive_ips example_cfg example_env (actions example_orchestrator)
                 (read_data (world_of [T1_done])) = Inr (False, world_of [T1_done])"
    unfolding acts rd0 by (rule cycle) (simp add: world_of_def)
  define w3 where "w3 = read_data (network_scan example_collaborators 1
      ((world_of [T1_done])\<lparr>bjornorch_status := ''IDLE'', bjornstatustext2 := '''',
          bjornorch_status := ''NetworkScanner''\<rparr>))"
  have "current_data w3 = [T1_done]"
    by (simp add: w3_def read_data_def network_scan_def example_collaborators_def world_of_def)
  from cycle [OF this]
  have second: "process_alive_ips example_cfg example_env (actions example_orchestrator) w3 =
                  Inr (False, w3)"
    unfolding acts .
  from idle_iteration_never_completes [OF first scanner second [unfolded w3_def]]
       first scanner
  show ?thesis by blast
qed

text \<open>
  Outside those ranges line 155 raises. For a cell \<open>failed_YYYYMMDD_HHMMSS\<close> whose
  timestamp parses to \<open>T\<close>, when the delay is no \<open>timedelta\<close> or \<open>T + failed_retry_delay\<close>
  is no \<open>datetime\<close>, and the port and parent rules pass, the evaluation ends in an
  \<open>OverflowError\<close>, which the handler of \<open>ValueError\<close> does not catch: the action is
  not executed, and nothing is returned either.
\<close>

theorem failed_cooldown_overflow:
  assumes "(current_data w ! i) key = Some (''failed_'' @ d @ ''_'' @ t)"
      and "timestamp_shaped d t"
      and "strptime e (d @ ''_'' @ t) = Some T"
      and "\<not> (timedelta_range (failed_retry_delay cfg) \<and>
              datetime_range (T + failed_retry_delay cfg))"
      and "str_port (port a) \<in> set ports" and "parent_ok a (current_data w ! i)"
  shows "execute_action cfg e a ip ports i key w = Inl OverflowError"
  using gate_failed_cell [OF assms(1,2,3,5,6), of cfg] retry_time_overflow [OF assms(4)]
  by (simp add: execute_action_def)

theorem failed_cooldown_overflow_witness:
  "(current_data (world_of [T1_failed]) ! 0) ''ActionX'' =
      Some (''failed_'' @ ''20240101'' @ ''_'' @ ''000000'') \<and>
   timestamp_shaped ''20240101'' ''000000'' \<and>
   strptime example_env (''20240101'' @ ''_'' @ ''000000'') = Some midnight \<and>
   \<not> timedelta_range (- 100000000000000) \<and>
   str_port (port ActionX) \<in> set [''80''] \<and>
   parent_ok ActionX (current_data (world_of [T1_failed]) ! 0) \<and>
   execute_action (example_cfg\<lparr>failed_retry_delay := - 100000000000000\<rparr>) example_env ActionX
     ''10.0.0.1'' [''80''] 0 ''ActionX'' (world_of [T1_failed]) = Inl OverflowError \<and>
   (current_data (world_of [T1_last]) ! 0) ''ActionX'' =
      Some (''failed_'' @ ''99991231'' @ ''_'' @ ''235959'') \<and>
   strptime example_env (''99991231'' @ ''_'' @ ''235959'') = Some datetime_max \<and>
   \<not> datetime_range (datetime_max + failed_retry_delay example_cfg) \<and>
   execute_action example_cfg example_env ActionX ''10.0.0.1'' [''80''] 0 ''ActionX''
     (world_of [T1_last]) = Inl OverflowError"
proof -
  have h1: "(current_data (world_of [T1_failed]) ! 0) ''ActionX'' =
      Some (''failed_'' @ ''20240101'' @ ''_'' @ ''000000'')"
    by (simp add: world_of_def T1_failed_def)
  have h2: "timestamp_shaped ''20240101'' ''000000''" by (simp add: timestamp_shaped_def)
  have h3: "strptime example_env (''20240101'' @ ''_'' @ ''000000'') = Some midnight"
    by (simp add: example_env_def example_strptime_def)
  have n4: "\<not> timedelta_range (- 100000000000000)" by (simp add: timedelta_range_def)
  then have h4: "\<not> (timedelta_range
                       (failed_retry_delay (example_cfg\<lparr>failed_retry_delay := - 100000000000000\<rparr>)) \<and>
                    datetime_range (midnight +
                       failed_retry_delay (example_cfg\<lparr>failed_retry_delay := - 100000000000000\<rparr>)))"
    by simp
  have h5: "str_port (port ActionX) \<in> set [''80'']"
    by (simp add: ActionX_def str_port_def str_int_def str_nat.simps digit_char_def)
  have h6: "parent_ok ActionX (current_data (world_of [T1_failed]) ! 0)"
    by (simp add: parent_ok_def ActionX_def)
  have k1: "(current_data (world_of [T1_last]) ! 0) ''ActionX'' =
      Some (''failed_'' @ ''99991231'' @ ''_'' @ ''235959'')"
    by (simp add: world_of_def T1_last_def)
  have k2: "timestamp_shaped ''99991231'' ''235959''" by (simp add: timestamp_shaped_def)
  have k3: "strptime example_env (''99991231'' @ ''_'' @ ''235959'') = Some datetime_max"
    by (simp add: example_env_def example_strptime_def)
  have n5: "\<not> datetime_range (datetime_max + failed_retry_delay example_cfg)"
    by (simp add: datetime_range_def example_cfg_def)
  then have k4: "\<not> (timedelta_range (failed_retry_delay example_cfg) \<and>
                    datetime_range (datetime_max + failed_retry_delay example_cfg))"
    by simp
  have k6: "parent_ok ActionX (current_data (world_of [T1_last]) ! 0)"
    by (simp add: parent_ok_def ActionX_def)
  note r1 = failed_cooldown_overflow [OF h1 h2 h3 h4 h5 h6, of "''10.0.0.1''"]
  note r2 = failed_cooldown_overflow [OF k1 k2 k3 k4 h5 k6, of "''10.0.0.1''"]
  from h1 h2 h3 n4 h5 h6 r1 k1 k3 n5 r2 show ?thesis by blast
qed

section \<open>Successes are kept through a cycle\<close>

lemma keeps_successes_refl: "keeps_successes w w"
  by (simp add: keeps_successes_def)

lemma keeps_successes_trans:
  "keeps_successes w w1 \<Longrightarrow> keeps_successes w1 w2 \<Longrightarrow> keeps_successes w w2"
  by (auto simp: keeps_successes_def)

lemma keeps_successes_same_table:
  "current_data w' = current_data w \<Longrightarrow> keeps_successes w w'"
  by (simp add: keeps_successes_def)

lemma keeps_successes_status:
  "keeps_successes w w' \<Longrightarrow> keeps_successes w (w'\<lparr>bjornorch_status := s\<rparr>)"
  by (simp add: keeps_successes_def)

lemma dispatch_table:
  assumes "dispatch e a ip i key w = (b, w')"
  shows "\<exists>v. current_data w' = (current_data w)[i := (current_data w ! i)(key \<mapsto> v)]"
  using assms
  by (auto simp: dispatch_def now_def write_data_def set_cell_def Let_def
           split: outcome.splits if_splits)

lemma gate_passed_not_success:
  assumes "gate cfg e a ports i key w = Inr (True, w1)" and "\<not> retry_success_actions cfg"
      and "(current_data w ! i) key = Some cell"
  shows "\<not> py_in ''success'' cell"
proof
  assume "py_in ''success'' cell"
  with assms(2,3) have "gate cfg e a ports i key w = Inr (False, w) \<or>
      gate cfg e a ports i key w = Inr (False, w)"
    by (simp add: gate_def success_check_def row_item_def Let_def)
  with assms(1) show False by simp
qed

lemma execute_action_keeps:
  assumes "execute_action cfg e a ip ports i key w = Inr (b, w')"
      and "\<not> retry_success_actions cfg"
  shows "keeps_successes w w'"
proof (cases "gate cfg e a ports i key w")
  case (Inl err)
  with assms(1) show ?thesis by (simp add: execute_action_def)
next
  case (Inr p)
  obtain g w1 where p: "p = (g, w1)" by (cases p)
  with Inr have gate: "gate cfg e a ports i key w = Inr (g, w1)" by simp
  have cd: "current_data w1 = current_data w" by (rule gate_current_data [OF gate])
  show ?thesis
  proof (cases g)
    case False
    with gate assms(1) have "w' = w1" by (simp add: execute_action_def)
    with cd show ?thesis by (simp add: keeps_successes_same_table)
  next
    case True
    with gate have gate_t: "gate cfg e a ports i key w = Inr (True, w1)" by simp
    with assms(1) have d: "dispatch e a ip i key w1 = (b, w')"
      by (simp add: execute_action_def)
    from dispatch_table [OF d] cd obtain v where
      tab: "current_data w' = (current_data w)[i := (current_data w ! i)(key \<mapsto> v)]"
      by auto
    have ns: "\<And>cell. (current_data w ! i) key = Some cell \<Longrightarrow> \<not> py_in ''success'' cell"
      using gate_passed_not_success [OF gate_t assms(2)] .
    show ?thesis
      unfolding keeps_successes_def
    proof (intro conjI allI impI)
      show "length (current_data w') = length (current_data w)" using tab by simp
    next
      fix j k cell
      assume j: "j < length (current_data w)"
        and c: "(current_data w ! j) k = Some cell \<and> py_in ''success'' cell"
      show "(current_data w' ! j) k = Some cell"
      proof (cases "j = i \<and> k = key")
        case True
        with c ns show ?thesis by blast
      next
        case False
        show ?thesis
        proof (cases "j = i")
          case True
          with False tab j c show ?thesis by simp
        next
          case False
          with tab c show ?thesis by simp
        qed
      qed
    qed
  qed
qed

lemma children_pass_keeps:
  assumes "\<not> retry_success_actions cfg"
  shows "children_pass cfg e cs key ip ports i w = Inr w' \<Longrightarrow> keeps_successes w w'"
proof (induction cs arbitrary: w)
  case Nil
  then show ?case by (simp add: keeps_successes_refl)
next
  case (Cons c cs)
  show ?case
  proof (cases "b_parent_action c = Some key")
    case False
    with Cons show ?thesis by simp
  next
    case True
    with Cons.prems obtain b w1 where
      ex: "execute_action cfg e c ip ports i (action_name c) w = Inr (b, w1)"
      by (auto split: sum.splits)
    note k1 = execute_action_keeps [OF ex assms]
    show ?thesis
    proof (cases b)
      case True
      with \<open>b_parent_action c = Some key\<close> ex Cons.prems
      have "w' = w1\<lparr>bjornorch_status := action_name c\<rparr>" by simp
      with k1 show ?thesis by (simp add: keeps_successes_status)
    next
      case False
      with \<open>b_parent_action c = Some key\<close> ex Cons.prems
      have "children_pass cfg e cs key ip ports i w1 = Inr w'" by simp
      from keeps_successes_trans [OF k1 Cons.IH [OF this]] show ?thesis .
    qed
  qed
qed

lemma top_rows_keeps:
  assumes "\<not> retry_success_actions cfg"
  shows "top_rows cfg e acts a idxs (b, w) = Inr (b', w') \<Longrightarrow> keeps_successes w w'"
proof (induction idxs arbitrary: w)
  case Nil
  then show ?case by (simp add: keeps_successes_refl)
next
  case (Cons i idxs)
  let ?r = "current_data w ! i"
  from Cons.prems obtain alive where al: "row_item ?r ''Alive'' = Inr alive"
    by (auto simp: Let_def split: sum.splits)
  show ?case
  proof (cases "alive \<noteq> ''1'' \<or> b_parent_action a \<noteq> None")
    case True
    with al Cons.prems have "top_rows cfg e acts a idxs (b, w) = Inr (b', w')"
      by (auto simp: Let_def split: sum.splits if_splits)
    from Cons.IH [OF this] show ?thesis .
  next
    case False
    with al Cons.prems obtain ip ps where
      ip: "row_item ?r ''IPs'' = Inr ip" and ps: "row_item ?r ''Ports'' = Inr ps"
      by (auto simp: Let_def split: sum.splits)
    with al False Cons.prems obtain g w1 where
      ex: "execute_action cfg e a ip (split CHR '';'' ps) i (action_name a) w = Inr (g, w1)"
      by (auto simp: Let_def split: sum.splits)
    note k1 = execute_action_keeps [OF ex assms]
    show ?thesis
    proof (cases g)
      case True
      with al False ip ps ex Cons.prems
      have "children_pass cfg e acts (action_name a) ip (split CHR '';'' ps) i
              (w1\<lparr>bjornorch_status := action_name a\<rparr>) = Inr w'"
        by (auto simp: Let_def split: sum.splits)
      from keeps_successes_trans [OF keeps_successes_status [OF k1]
             children_pass_keeps [OF assms this]]
      show ?thesis .
    next
      case g: False
      with al False ip ps ex Cons.prems
      have "top_rows cfg e acts a idxs (b, w1) = Inr (b', w')"
        by (auto simp: Let_def)
      from keeps_successes_trans [OF k1 Cons.IH [OF this]] show ?thesis .
    qed
  qed
qed

lemma top_level_pass_keeps:
  assumes "\<not> retry_success_actions cfg"
  shows "top_level_pass cfg e acts as (b, w) = Inr (b', w') \<Longrightarrow> keeps_successes w w'"
proof (induction as arbitrary: b w)
  case Nil
  then show ?case by (simp add: keeps_successes_refl)
next
  case (Cons a as)
  from Cons.prems obtain b1 w1 where
    r: "top_rows cfg e acts a [0 ..< length (current_data w)] (b, w) = Inr (b1, w1)"
    and rest: "top_level_pass cfg e acts as (b1, w1) = Inr (b', w')"
    by (auto split: sum.splits)
  from keeps_successes_trans [OF top_rows_keeps [OF assms r] Cons.IH [OF rest]]
  show ?case .
qed

lemma sweep_rows_keeps:
  assumes "\<not> retry_success_actions cfg"
  shows "sweep_rows cfg e c idxs (b, w) = Inr (b', w') \<Longrightarrow> keeps_successes w w'"
proof (induction idxs arbitrary: w)
  case Nil
  then show ?case by (simp add: keeps_successes_refl)
next
  case (Cons i idxs)
  let ?r = "current_data w ! i"
  from Cons.prems obtain ip ps where
    ip: "row_item ?r ''IPs'' = Inr ip" and ps: "row_item ?r ''Ports'' = Inr ps"
    by (auto simp: Let_def split: sum.splits)
  with Cons.prems obtain g w1 where
    ex: "execute_action cfg e c ip (split CHR '';'' ps) i (action_name c) w = Inr (g, w1)"
    by (auto simp: Let_def split: sum.splits)
  note k1 = execute_action_keeps [OF ex assms]
  show ?case
  proof (cases g)
    case True
    with ip ps ex Cons.prems have "w' = w1\<lparr>bjornorch_status := action_name c\<rparr>"
      by (auto simp: Let_def)
    with k1 show ?thesis by (simp add: keeps_successes_status)
  next
    case False
    with ip ps ex Cons.prems have "sweep_rows cfg e c idxs (b, w1) = Inr (b', w')"
      by (auto simp: Let_def)
    from keeps_successes_trans [OF k1 Cons.IH [OF this]] show ?thesis .
  qed
qed

lemma child_sweep_keeps:
  assumes "\<not> retry_success_actions cfg"
  shows "child_sweep cfg e as (b, w) = Inr (b', w') \<Longrightarrow> keeps_successes w w'"
proof (induction as arbitrary: b w)
  case Nil
  then show ?case by (simp add: keeps_successes_refl)
next
  case (Cons c as)
  show ?case
  proof (cases "truthy (b_parent_action c)")
    case False
    with Cons show ?thesis by simp
  next
    case True
    with Cons.prems obtain b1 w1 where
      r: "sweep_rows cfg e c [0 ..< length (current_data w)] (b, w) = Inr (b1, w1)"
      and rest: "child_sweep cfg e as (b1, w1) = Inr (b', w')"
      by (auto split: sum.splits)
    from keeps_successes_trans [OF sweep_rows_keeps [OF assms r] Cons.IH [OF rest]]
    show ?thesis .
  qed
qed

text \<open>
  With \<open>retry_success_actions\<close> off, a whole cycle that returns leaves the table at
  its length and every cell that holds a success as it is, so that the cell holds the same
  success at the start of the next evaluation.
\<close>

theorem cycle_keeps_successes:
  assumes "\<not> retry_success_actions cfg"
      and "process_alive_ips cfg e acts w = Inr (b, w')"
  shows "keeps_successes w w'"
proof -
  from assms(2) obtain b1 w1 where
    t: "top_level_pass cfg e acts acts (False, w) = Inr (b1, w1)"
    and s: "child_sweep cfg e acts (b1, w1) = Inr (b, w')"
    by (auto simp: process_alive_ips_def split: sum.splits)
  from keeps_successes_trans [OF top_level_pass_keeps [OF assms(1) t]
         child_sweep_keeps [OF assms(1) s]]
  show ?thesis .
qed

theorem cycle_keeps_successes_witness:
  "\<not> retry_success_actions example_cfg \<and>
   (\<exists>b w'. process_alive_ips example_cfg example_env [ActionX, ActionZ] (world_of [T1_done])
              = Inr (b, w') \<and>
      keeps_successes (world_of [T1_done]) w' \<and>
      (current_data w' ! 0) ''ActionX'' = Some ''success_20240101_000000'')"
proof -
  have h1: "\<not> retry_success_actions example_cfg" by (simp add: example_cfg_def)
  obtain b w' where h2: "process_alive_ips example_cfg example_env [ActionX, ActionZ]
      (world_of [T1_done]) = Inr (b, w')"
    by (simp add: cycle_defs ActionX_def ActionZ_def T1_done_def)
  have cell: "(current_data (world_of [T1_done]) ! 0) ''ActionX'' = Some ''success_20240101_000000''"
    by (simp add: world_of_def T1_done_def)
  have len: "0 < length (current_data (world_of [T1_done]))" by (simp add: world_of_def)
  have s: "py_in ''success'' ''success_20240101_000000''" by simp
  note k = cycle_keeps_successes [OF h1 h2]
  with cell len s have "(current_data w' ! 0) ''ActionX'' = Some ''success_20240101_000000''"
    unfolding keeps_successes_def by blast
  with h1 h2 k show ?thesis by blast
qed

end
